theory Spec2Isabelle
  imports Main "HOL-Library.AList" "HOL-Library.Sublist"
begin

section \<open>Python values\<close>

text \<open>
  The values that \<^verbatim>\<open>json.loads\<close> produces and \<^verbatim>\<open>json.dumps\<close> consumes. A Python
  \<^verbatim>\<open>str\<close> is the list of its characters (code points below 256), \<^verbatim>\<open>None\<close> is
  \<open>JNull\<close>, a \<^verbatim>\<open>dict\<close> is an association list in insertion order. Numbers are
  restricted to integers.
\<close>

datatype json =
    JNull
  | JBool bool
  | JNum int
  | JStr string
  | JArr "json list"
  | JObj "(string \<times> json) list"

text \<open>The exceptions that the modelled code raises or catches.\<close>

datatype exn =
    ValueError
  | AttributeError
  | TypeError
  | JSONDecodeError
  | NoKeyringError
  | PasswordDeleteError
  | OtherError

text \<open>Python truth value testing (\<^verbatim>\<open>if x:\<close>, \<^verbatim>\<open>not x\<close>).\<close>

fun truthy :: "json \<Rightarrow> bool" where
  "truthy JNull = False"
| "truthy (JBool b) = b"
| "truthy (JNum n) = (n \<noteq> 0)"
| "truthy (JStr s) = (s \<noteq> [])"
| "truthy (JArr xs) = (xs \<noteq> [])"
| "truthy (JObj kvs) = (kvs \<noteq> [])"

text \<open>\<^verbatim>\<open>d.get(k)\<close> and \<^verbatim>\<open>d.get(k, default)\<close> on a dict.\<close>

definition dict_get :: "(string \<times> json) list \<Rightarrow> string \<Rightarrow> json" where
  "dict_get d k = (case map_of d k of None \<Rightarrow> JNull | Some v \<Rightarrow> v)"

definition dict_get_default :: "(string \<times> json) list \<Rightarrow> string \<Rightarrow> json \<Rightarrow> json" where
  "dict_get_default d k dflt = (case map_of d k of None \<Rightarrow> dflt | Some v \<Rightarrow> v)"

text \<open>
  \<^verbatim>\<open>s.upper()\<close> and \<^verbatim>\<open>s.lower()\<close>. Only a \<^verbatim>\<open>str\<close> has these methods; on any other
  value the call raises \<^verbatim>\<open>AttributeError\<close>. \<open>upper_char\<close> maps the ASCII letters; the
  result is only ever compared with \<^verbatim>\<open>"TOTP"\<close> and \<^verbatim>\<open>"HOTP"\<close>, and no other
  character below 256 is mapped to an ASCII letter by Python. \<open>lower_char\<close> maps the
  ASCII capitals and the Latin-1 capitals (all of 192..222 except the multiplication
  sign 215).
\<close>

definition upper_char :: "char \<Rightarrow> char" where
  "upper_char c =
     (let n = (of_char c :: nat)
      in if 97 \<le> n \<and> n \<le> 122 then char_of (n - 32) else c)"

definition lower_char :: "char \<Rightarrow> char" where
  "lower_char c =
     (let n = (of_char c :: nat)
      in if (65 \<le> n \<and> n \<le> 90) \<or> (192 \<le> n \<and> n \<le> 222 \<and> n \<noteq> 215)
         then char_of (n + 32) else c)"

definition upper :: "string \<Rightarrow> string" where
  "upper s = map upper_char s"

definition lower :: "string \<Rightarrow> string" where
  "lower s = map lower_char s"

fun py_upper :: "json \<Rightarrow> exn + string" where
  "py_upper (JStr s) = Inr (upper s)"
| "py_upper _ = Inl AttributeError"

fun py_lower :: "json \<Rightarrow> exn + string" where
  "py_lower (JStr s) = Inr (lower s)"
| "py_lower _ = Inl AttributeError"

text \<open>\<^verbatim>\<open>s.replace(' ', '_')\<close>.\<close>

definition replace_spaces :: "string \<Rightarrow> string" where
  "replace_spaces s = map (\<lambda>c. if c = CHR '' '' then CHR ''_'' else c) s"

text \<open>\<^verbatim>\<open>str(n)\<close> for a non-negative integer: its decimal digits.\<close>

definition digit_char :: "nat \<Rightarrow> char" where
  "digit_char d = ''0123456789'' ! d"

fun str_nat :: "nat \<Rightarrow> string" where
  "str_nat n = (if n < 10 then [digit_char n] else str_nat (n div 10) @ [digit_char (n mod 10)])"

declare str_nat.simps [simp del]

text \<open>
  \<^verbatim>\<open>identifier in accounts\<close> for a \<^verbatim>\<open>str\<close> on the left: membership in a list, key
  membership in a dict, substring test in a string, \<^verbatim>\<open>TypeError\<close> otherwise.
\<close>

fun py_in :: "string \<Rightarrow> json \<Rightarrow> exn + bool" where
  "py_in x (JArr xs) = Inr (JStr x \<in> set xs)"
| "py_in x (JObj kvs) = Inr (x \<in> set (map fst kvs))"
| "py_in x (JStr s) = Inr (sublist x s)"
| "py_in x _ = Inl TypeError"

text \<open>\<^verbatim>\<open>accounts.append(identifier)\<close>: only a list has \<^verbatim>\<open>append\<close>.\<close>

fun py_append :: "json \<Rightarrow> string \<Rightarrow> exn + json" where
  "py_append (JArr xs) x = Inr (JArr (xs @ [JStr x]))"
| "py_append _ x = Inl AttributeError"

text \<open>
  \<^verbatim>\<open>accounts.remove(identifier)\<close>, called only after \<^verbatim>\<open>identifier in accounts\<close> held:
  a list drops the first equal element; a dict and a string have no \<^verbatim>\<open>remove\<close>.
\<close>

fun py_remove :: "json \<Rightarrow> string \<Rightarrow> exn + json" where
  "py_remove (JArr xs) x = Inr (JArr (remove1 (JStr x) xs))"
| "py_remove _ x = Inl AttributeError"

section \<open>The keyring\<close>

text \<open>
  A keyring value is a Python \<^verbatim>\<open>str\<close>. \<open>Dumped v\<close> is the text that
  \<^verbatim>\<open>json.dumps(v)\<close> returns, which \<^verbatim>\<open>json.loads\<close> decodes back to \<open>v\<close>;
  \<open>Plain s\<close> is a text \<open>s\<close> that is not valid JSON (the empty text among them).
\<close>

datatype jtext = Dumped json | Plain string

definition json_dumps :: "json \<Rightarrow> jtext" where
  "json_dumps v = Dumped v"

fun json_loads :: "jtext \<Rightarrow> exn + json" where
  "json_loads (Dumped v) = Inr v"
| "json_loads (Plain s) = Inl JSONDecodeError"

fun text_truthy :: "jtext \<Rightarrow> bool" where
  "text_truthy (Dumped v) = True"
| "text_truthy (Plain s) = (s \<noteq> [])"

text \<open>
  The entries of one service of the keyring, and how the backend behaves: when
  \<open>get_error\<close>, \<open>set_error\<close> or \<open>delete_error\<close> is \<open>Some e\<close>, the corresponding call
  raises \<open>e\<close> and changes nothing. With no backend at all every call raises
  \<open>NoKeyringError\<close>. \<^verbatim>\<open>keyring.delete_password\<close> raises \<open>PasswordDeleteError\<close> for a
  key that has no entry.
\<close>

record 'v keyring =
  passwords :: "(string \<times> 'v) list"
  get_error :: "exn option"
  set_error :: "exn option"
  delete_error :: "exn option"

definition get_password :: "'v keyring \<Rightarrow> string \<Rightarrow> exn + 'v option" where
  "get_password kr k =
     (case get_error kr of
        Some e \<Rightarrow> Inl e
      | None \<Rightarrow> Inr (map_of (passwords kr) k))"

definition set_password :: "'v keyring \<Rightarrow> string \<Rightarrow> 'v \<Rightarrow> 'v keyring \<times> exn option" where
  "set_password kr k v =
     (case set_error kr of
        Some e \<Rightarrow> (kr, Some e)
      | None \<Rightarrow> (kr\<lparr>passwords := AList.update k v (passwords kr)\<rparr>, None))"

definition delete_password :: "'v keyring \<Rightarrow> string \<Rightarrow> 'v keyring \<times> exn option" where
  "delete_password kr k =
     (case delete_error kr of
        Some e \<Rightarrow> (kr, Some e)
      | None \<Rightarrow>
          (if map_of (passwords kr) k = None then (kr, Some PasswordDeleteError)
           else (kr\<lparr>passwords := AList.delete k (passwords kr)\<rparr>, None)))"

definition empty_keyring :: "'v keyring" where
  "empty_keyring = \<lparr>passwords = [], get_error = None, set_error = None, delete_error = None\<rparr>"

definition no_backend :: "'v keyring \<Rightarrow> 'v keyring" where
  "no_backend kr = kr\<lparr>get_error := Some NoKeyringError, set_error := Some NoKeyringError,
                      delete_error := Some NoKeyringError\<rparr>"

section \<open>core/secure\_storage.py\<close>

definition ACCOUNTS_LIST_KEY :: string where
  "ACCOUNTS_LIST_KEY = ''__accounts_list__''"

text \<open>
  \<^verbatim>\<open>get_token_secret\<close>: every exception (no backend, undecodable text, a decoded value
  that is not a dict and so has no \<^verbatim>\<open>get\<close>) ends in \<^verbatim>\<open>return None\<close>.
\<close>

definition get_token_secret :: "jtext keyring \<Rightarrow> string \<Rightarrow> (string \<times> json) list option" where
  "get_token_secret kr identifier =
     (case get_password kr identifier of
        Inl e \<Rightarrow> None
      | Inr None \<Rightarrow> None
      | Inr (Some secret_json) \<Rightarrow>
          (if text_truthy secret_json then
             (case json_loads secret_json of
                Inl e \<Rightarrow> None
              | Inr (JObj data) \<Rightarrow>
                  Some [(''identifier'', JStr identifier),
                        (''account_name'', dict_get data ''account_name''),
                        (''issuer_name'', dict_get data ''issuer_name''),
                        (''secret_key'', dict_get data ''secret_key''),
                        (''type'', dict_get_default data ''type'' (JStr ''TOTP'')),
                        (''recovery_codes'', dict_get_default data ''recovery_codes'' (JStr ''''))]
              | Inr _ \<Rightarrow> None)
           else None))"

text \<open>
  \<^verbatim>\<open>get_all_token_identifiers\<close> returns whatever \<^verbatim>\<open>json.loads\<close> decodes, and the
  empty list on every failure.
\<close>

definition get_all_token_identifiers :: "jtext keyring \<Rightarrow> json" where
  "get_all_token_identifiers kr =
     (case get_password kr ACCOUNTS_LIST_KEY of
        Inl e \<Rightarrow> JArr []
      | Inr None \<Rightarrow> JArr []
      | Inr (Some accounts_json) \<Rightarrow>
          (if text_truthy accounts_json then
             (case json_loads accounts_json of Inl e \<Rightarrow> JArr [] | Inr v \<Rightarrow> v)
           else JArr []))"

text \<open>
  \<^verbatim>\<open>_add_account_to_list\<close> and \<^verbatim>\<open>_remove_account_from_list\<close>: only
  \<open>NoKeyringError\<close> from the write is swallowed; anything else propagates.
\<close>

definition add_account_to_list :: "jtext keyring \<Rightarrow> string \<Rightarrow> jtext keyring \<times> exn option" where
  "add_account_to_list kr identifier =
     (let accounts = get_all_token_identifiers kr in
      case py_in identifier accounts of
        Inl e \<Rightarrow> (kr, Some e)
      | Inr True \<Rightarrow> (kr, None)
      | Inr False \<Rightarrow>
          (case py_append accounts identifier of
             Inl e \<Rightarrow> (kr, Some e)
           | Inr accounts' \<Rightarrow>
               (case set_password kr ACCOUNTS_LIST_KEY (json_dumps accounts') of
                  (kr', Some e) \<Rightarrow> (kr', if e = NoKeyringError then None else Some e)
                | (kr', None) \<Rightarrow> (kr', None))))"

definition remove_account_from_list :: "jtext keyring \<Rightarrow> string \<Rightarrow> jtext keyring \<times> exn option" where
  "remove_account_from_list kr identifier =
     (let accounts = get_all_token_identifiers kr in
      case py_in identifier accounts of
        Inl e \<Rightarrow> (kr, Some e)
      | Inr False \<Rightarrow> (kr, None)
      | Inr True \<Rightarrow>
          (case py_remove accounts identifier of
             Inl e \<Rightarrow> (kr, Some e)
           | Inr accounts' \<Rightarrow>
               (case set_password kr ACCOUNTS_LIST_KEY (json_dumps accounts') of
                  (kr', Some e) \<Rightarrow> (kr', if e = NoKeyringError then None else Some e)
                | (kr', None) \<Rightarrow> (kr', None))))"

text \<open>
  The collision loop of \<^verbatim>\<open>save_token_secret\<close>:
  \<^verbatim>\<open>while get_token_secret(temp_id) is not None: temp_id = f"{current_identifier}_{count}"; count += 1\<close>.
  It ends because every pass but the last finds a different key of the finite keyring:
  the decimal numerals of different numbers differ.
\<close>

text \<open>
  \<open>pending kr cur c\<close> are the keys of the keyring that the loop can still run into
  from the count \<open>c\<close> on; their number is the measure by which the loop ends.
\<close>

definition pending :: "jtext keyring \<Rightarrow> string \<Rightarrow> nat \<Rightarrow> string set" where
  "pending kr cur c = {k \<in> fst ` set (passwords kr). \<exists>n\<ge>c. k = cur @ ''_'' @ str_nat n}"

function resolve_collision :: "jtext keyring \<Rightarrow> string \<Rightarrow> string \<Rightarrow> nat \<Rightarrow> string" where
  "resolve_collision kr current_identifier temp_id count =
     (if get_token_secret kr temp_id \<noteq> None
      then resolve_collision kr current_identifier
             (current_identifier @ ''_'' @ str_nat count) (count + 1)
      else temp_id)"
  by pat_completeness auto

text \<open>
  The identifier of a new token:
  \<^verbatim>\<open>f"{issuer_name.lower().replace(' ', '_')}_{account_name.lower().replace(' ', '_')}"\<close>.
\<close>

definition candidate_identifier :: "json \<Rightarrow> json \<Rightarrow> exn + string" where
  "candidate_identifier issuer_name account_name =
     (case py_lower issuer_name of
        Inl e \<Rightarrow> Inl e
      | Inr i \<Rightarrow>
          (case py_lower account_name of
             Inl e \<Rightarrow> Inl e
           | Inr a \<Rightarrow> Inr (replace_spaces i @ ''_'' @ replace_spaces a)))"

text \<open>
  Lines 36 to 47 of \<^verbatim>\<open>save_token_secret\<close>: the identifier under which the record is
  written. \<^verbatim>\<open>identifier\<close> is \<open>None\<close> when it is left out; \<^verbatim>\<open>if identifier:\<close> also
  sends the empty string to the branch of a new token.
\<close>

definition new_identifier :: "jtext keyring \<Rightarrow> json \<Rightarrow> json \<Rightarrow> exn + string" where
  "new_identifier kr issuer_name account_name =
     (case candidate_identifier issuer_name account_name of
        Inl e \<Rightarrow> Inl e
      | Inr current_identifier \<Rightarrow>
          Inr (resolve_collision kr current_identifier current_identifier 1))"

definition choose_identifier ::
  "jtext keyring \<Rightarrow> string option \<Rightarrow> json \<Rightarrow> json \<Rightarrow> exn + string" where
  "choose_identifier kr identifier issuer_name account_name =
     (case identifier of
        None \<Rightarrow> new_identifier kr issuer_name account_name
      | Some i \<Rightarrow> (if i \<noteq> [] then Inr i else new_identifier kr issuer_name account_name))"

text \<open>
  \<^verbatim>\<open>save_token_secret\<close>. The arguments are whatever the caller passes: the dialogs pass
  strings, the restore passes decoded JSON. Both \<^verbatim>\<open>except\<close> clauses re-raise.
\<close>

definition save_token_secret ::
  "jtext keyring \<Rightarrow> json \<Rightarrow> json \<Rightarrow> json \<Rightarrow> json \<Rightarrow> string option \<Rightarrow> json
     \<Rightarrow> jtext keyring \<times> (exn + string)" where
  "save_token_secret kr account_name issuer_name secret_key token_type identifier recovery_codes =
     (if \<not> truthy account_name \<or> \<not> truthy secret_key \<or> \<not> truthy issuer_name
      then (kr, Inl ValueError)
      else
        (case py_upper token_type of
           Inl e \<Rightarrow> (kr, Inl e)
         | Inr u \<Rightarrow>
             (if u \<notin> set [''TOTP'', ''HOTP''] then (kr, Inl ValueError)
              else
                (case choose_identifier kr identifier issuer_name account_name of
                   Inl e \<Rightarrow> (kr, Inl e)
                 | Inr current_identifier \<Rightarrow>
                     (let data = JObj [(''account_name'', account_name),
                                       (''issuer_name'', issuer_name),
                                       (''secret_key'', secret_key),
                                       (''type'', token_type),
                                       (''recovery_codes'', recovery_codes)]
                      in case set_password kr current_identifier (json_dumps data) of
                           (kr1, Some e) \<Rightarrow> (kr1, Inl e)
                         | (kr1, None) \<Rightarrow>
                             (case add_account_to_list kr1 current_identifier of
                                (kr2, Some e) \<Rightarrow> (kr2, Inl e)
                              | (kr2, None) \<Rightarrow> (kr2, Inr current_identifier)))))))"

text \<open>
  \<^verbatim>\<open>delete_token_secret\<close>. An exception of \<^verbatim>\<open>_remove_account_from_list\<close> inside the
  \<^verbatim>\<open>try\<close> is handled by the same three \<^verbatim>\<open>except\<close> clauses as one of
  \<^verbatim>\<open>keyring.delete_password\<close>; one raised inside the \<open>PasswordDeleteError\<close> handler
  propagates to the caller.
\<close>

definition delete_handlers :: "jtext keyring \<Rightarrow> string \<Rightarrow> exn \<Rightarrow> jtext keyring \<times> exn option" where
  "delete_handlers kr identifier e =
     (if e = NoKeyringError then (kr, None)
      else if e = PasswordDeleteError then remove_account_from_list kr identifier
      else (kr, None))"

definition delete_token_secret :: "jtext keyring \<Rightarrow> string \<Rightarrow> jtext keyring \<times> exn option" where
  "delete_token_secret kr identifier =
     (case delete_password kr identifier of
        (kr1, Some e) \<Rightarrow> delete_handlers kr1 identifier e
      | (kr1, None) \<Rightarrow>
          (case remove_account_from_list kr1 identifier of
             (kr2, Some e) \<Rightarrow> delete_handlers kr2 identifier e
           | (kr2, None) \<Rightarrow> (kr2, None)))"

text \<open>
  \<^verbatim>\<open>get_all_token_data\<close>. \<^verbatim>\<open>for identifier_from_list in identifiers\<close> walks the
  elements of a list, the keys of a dict and the characters of a string, and raises
  \<^verbatim>\<open>TypeError\<close> on anything else. A list element that is not a string is no key of the
  keyring: the lookup fails and \<^verbatim>\<open>get_token_secret\<close> returns \<^verbatim>\<open>None\<close>.
\<close>

fun py_iter :: "json \<Rightarrow> exn + json list" where
  "py_iter (JArr xs) = Inr xs"
| "py_iter (JObj kvs) = Inr (map (\<lambda>kv. JStr (fst kv)) kvs)"
| "py_iter (JStr s) = Inr (map (\<lambda>c. JStr [c]) s)"
| "py_iter _ = Inl TypeError"

fun lookup_listed :: "jtext keyring \<Rightarrow> json \<Rightarrow> (string \<times> json) list option" where
  "lookup_listed kr (JStr identifier) = get_token_secret kr identifier"
| "lookup_listed kr _ = None"

fun collect_token_data :: "jtext keyring \<Rightarrow> json list \<Rightarrow> (string \<times> json) list list" where
  "collect_token_data kr [] = []"
| "collect_token_data kr (identifier_from_list # rest) =
     (case lookup_listed kr identifier_from_list of
        None \<Rightarrow> collect_token_data kr rest
      | Some token_info \<Rightarrow>
          (if truthy (dict_get token_info ''account_name'')
              \<and> truthy (dict_get token_info ''secret_key'')
              \<and> truthy (dict_get token_info ''issuer_name'')
           then token_info # collect_token_data kr rest
           else collect_token_data kr rest))"

definition get_all_token_data :: "jtext keyring \<Rightarrow> exn + (string \<times> json) list list" where
  "get_all_token_data kr =
     (case py_iter (get_all_token_identifiers kr) of
        Inl e \<Rightarrow> Inl e
      | Inr identifiers \<Rightarrow> Inr (collect_token_data kr identifiers))"

section \<open>A vault with one token\<close>

text \<open>The keyring after one token of GitHub account bob has been added to an empty vault.\<close>

definition example_vault :: "jtext keyring" where
  "example_vault =
     \<lparr>passwords =
        [(''github_bob'',
          Dumped (JObj [(''account_name'', JStr ''bob''), (''issuer_name'', JStr ''GitHub''),
                        (''secret_key'', JStr ''JBSWY3DPEHPK3PXP''), (''type'', JStr ''TOTP''),
                        (''recovery_codes'', JStr ''r1 r2'')])),
         (''__accounts_list__'', Dumped (JArr [JStr ''github_bob'']))],
      get_error = None, set_error = None, delete_error = None\<rparr>"

section \<open>core/app\_lock.py\<close>

text \<open>
  Python \<^verbatim>\<open>bytes\<close> are lists of characters, one character a byte.
  \<^verbatim>\<open>pin.encode('utf-8')\<close> leaves a code point below 128 as it is and writes one from
  128 to 255 as two bytes.
\<close>

type_synonym bytes = "char list"

definition encode_utf8 :: "string \<Rightarrow> bytes" where
  "encode_utf8 s =
     concat (map (\<lambda>c. let n = (of_char c :: nat)
                       in if n < 128 then [c]
                          else [char_of (192 + n div 64), char_of (128 + n mod 64)]) s)"

text \<open>\<^verbatim>\<open>b.hex()\<close>: two lower-case hexadecimal digits for every byte.\<close>

definition hex_digit :: "nat \<Rightarrow> char" where
  "hex_digit d = ''0123456789abcdef'' ! d"

definition hex :: "bytes \<Rightarrow> string" where
  "hex bs = concat (map (\<lambda>b. [hex_digit ((of_char b :: nat) div 16),
                               hex_digit ((of_char b :: nat) mod 16)]) bs)"

text \<open>
  \<^verbatim>\<open>bytes.fromhex(s)\<close>: pairs of hexadecimal digits of either case, ASCII whitespace
  between the pairs skipped, \<^verbatim>\<open>ValueError\<close> on anything else.
\<close>

definition hex_value :: "char \<Rightarrow> nat option" where
  "hex_value c = map_of (zip ''0123456789abcdef'' [0..<16] @ zip ''ABCDEF'' [10..<16]) c"

definition is_space :: "char \<Rightarrow> bool" where
  "is_space c \<longleftrightarrow> (of_char c :: nat) \<in> {9, 10, 11, 12, 13, 32}"

fun fromhex :: "string \<Rightarrow> exn + bytes" where
  "fromhex [] = Inr []"
| "fromhex [c] = (if is_space c then Inr [] else Inl ValueError)"
| "fromhex (c # d # rest) =
     (if is_space c then fromhex (d # rest)
      else (case (hex_value c, hex_value d) of
              (Some h, Some l) \<Rightarrow>
                (case fromhex rest of
                   Inl e \<Rightarrow> Inl e
                 | Inr bs \<Rightarrow> Inr (char_of (16 * h + l) # bs))
            | _ \<Rightarrow> Inl ValueError))"

definition PIN_HASH_KEY :: string where
  "PIN_HASH_KEY = ''app_pin_hash''"

definition SALT_KEY :: string where
  "SALT_KEY = ''app_pin_salt''"

definition PBKDF2_ITERATIONS :: nat where
  "PBKDF2_ITERATIONS = 100000"

text \<open>
  \<^verbatim>\<open>hashlib.pbkdf2_hmac(hash_name, password, salt, iterations)\<close> is a function of the
  standard library, not of this program: every function below takes it as its first
  argument.
\<close>

type_synonym pbkdf2_hmac = "string \<Rightarrow> bytes \<Rightarrow> bytes \<Rightarrow> nat \<Rightarrow> bytes"

definition hash_pin :: "pbkdf2_hmac \<Rightarrow> string \<Rightarrow> bytes \<Rightarrow> bytes" where
  "hash_pin pbkdf2 pin salt = pbkdf2 ''sha256'' (encode_utf8 pin) salt PBKDF2_ITERATIONS"

text \<open>
  \<^verbatim>\<open>set_app_pin\<close>; \<open>salt\<close> is what \<^verbatim>\<open>_generate_salt()\<close>, that is \<^verbatim>\<open>os.urandom(16)\<close>,
  returns in this call. The keyring is the service \<^verbatim>\<open>"Python2FAApp_Lock"\<close>, whose values
  are plain strings. Both \<^verbatim>\<open>except\<close> clauses re-raise.
\<close>

definition set_app_pin ::
  "pbkdf2_hmac \<Rightarrow> string keyring \<Rightarrow> string \<Rightarrow> bytes \<Rightarrow> string keyring \<times> exn option" where
  "set_app_pin pbkdf2 kr pin salt =
     (if length pin < 4 then (kr, Some ValueError)
      else
        (let hashed_pin = hash_pin pbkdf2 pin salt in
         case set_password kr SALT_KEY (hex salt) of
           (kr1, Some e) \<Rightarrow> (kr1, Some e)
         | (kr1, None) \<Rightarrow> set_password kr1 PIN_HASH_KEY (hex hashed_pin)))"

text \<open>
  \<^verbatim>\<open>verify_app_pin\<close>: \<^verbatim>\<open>not salt_hex\<close> holds for \<^verbatim>\<open>None\<close> and for the empty string;
  every exception ends in \<^verbatim>\<open>return False\<close>.
\<close>

definition falsy_entry :: "string option \<Rightarrow> bool" where
  "falsy_entry v \<longleftrightarrow> (case v of None \<Rightarrow> True | Some s \<Rightarrow> s = [])"

definition verify_app_pin :: "pbkdf2_hmac \<Rightarrow> string keyring \<Rightarrow> string \<Rightarrow> bool" where
  "verify_app_pin pbkdf2 kr pin =
     (case get_password kr SALT_KEY of
        Inl e \<Rightarrow> False
      | Inr salt_hex \<Rightarrow>
          (case get_password kr PIN_HASH_KEY of
             Inl e \<Rightarrow> False
           | Inr stored_hash_hex \<Rightarrow>
               (if falsy_entry salt_hex \<or> falsy_entry stored_hash_hex then False
                else
                  (case fromhex (the salt_hex) of
                     Inl e \<Rightarrow> False
                   | Inr salt \<Rightarrow>
                       (case fromhex (the stored_hash_hex) of
                          Inl e \<Rightarrow> False
                        | Inr stored_hash \<Rightarrow> hash_pin pbkdf2 pin salt = stored_hash)))))"


section \<open>main.py: the unlock protocol\<close>

definition MAX_PIN_ATTEMPTS :: nat where
  "MAX_PIN_ATTEMPTS = 3"

record app =
  app_unlocked :: bool
  pin_attempts :: nat

text \<open>
  How \<^verbatim>\<open>_prompt_for_pin_and_unlock\<close> ends: it returns \<^verbatim>\<open>True\<close>, or
  \<^verbatim>\<open>quit_application_if_pin_cancelled\<close> ends the process with \<^verbatim>\<open>sys.exit(1)\<close> (the
  \<^verbatim>\<open>return False\<close> after each call of it is never reached).
\<close>

datatype unlock_result = Unlocked | Exited

text \<open>
  The \<^verbatim>\<open>while\<close> loop. \<open>entries k\<close> is what \<^verbatim>\<open>pin_dialog.get_pin()\<close> returns in the pass
  that starts with \<^verbatim>\<open>pin_attempts == k\<close>: \<open>None\<close> when the dialog is cancelled. \<open>calls\<close>
  collects the PINs passed to \<^verbatim>\<open>app_lock.verify_app_pin\<close>, in order;
  \<^verbatim>\<open>pin and app_lock.verify_app_pin(pin)\<close> does not call it for an empty PIN. Both
  \<^verbatim>\<open>elif\<close> branches of a cancelled dialog quit, whatever \<^verbatim>\<open>is_startup_check\<close> is.
\<close>

function unlock_loop ::
  "pbkdf2_hmac \<Rightarrow> string keyring \<Rightarrow> (nat \<Rightarrow> string option) \<Rightarrow> bool \<Rightarrow> app \<Rightarrow> string list
     \<Rightarrow> app \<times> unlock_result \<times> string list" where
  "unlock_loop pbkdf2 kr entries is_startup_check self calls =
     (if pin_attempts self < MAX_PIN_ATTEMPTS then
        (case entries (pin_attempts self) of
           None \<Rightarrow> (self, Exited, calls)
         | Some pin \<Rightarrow>
             (if pin = [] then
                unlock_loop pbkdf2 kr entries is_startup_check
                  (self\<lparr>pin_attempts := pin_attempts self + 1\<rparr>) calls
              else if verify_app_pin pbkdf2 kr pin then
                (self\<lparr>app_unlocked := True\<rparr>, Unlocked, calls @ [pin])
              else
                unlock_loop pbkdf2 kr entries is_startup_check
                  (self\<lparr>pin_attempts := pin_attempts self + 1\<rparr>) (calls @ [pin])))
      else (self, Exited, calls))"
  by pat_completeness auto
termination
  by (relation "measure (\<lambda>(pbkdf2, kr, entries, is_startup_check, self, calls).
                  MAX_PIN_ATTEMPTS - pin_attempts self)") auto

declare unlock_loop.simps [simp del]

definition prompt_for_pin_and_unlock ::
  "pbkdf2_hmac \<Rightarrow> string keyring \<Rightarrow> (nat \<Rightarrow> string option) \<Rightarrow> bool \<Rightarrow> app
     \<Rightarrow> app \<times> unlock_result \<times> string list" where
  "prompt_for_pin_and_unlock pbkdf2 kr entries is_startup_check self =
     unlock_loop pbkdf2 kr entries is_startup_check (self\<lparr>pin_attempts := 0\<rparr>) []"

text \<open>
  A stand-in for PBKDF2 on which the model can be run: the first 32 bytes of password,
  salt and padding.
\<close>

definition padded_prefix :: pbkdf2_hmac where
  "padded_prefix hash_name password salt iterations =
     take 32 (password @ salt @ replicate 32 (CHR ''.''))"

section \<open>ui/settings\_frame.py: encrypted backup and restore\<close>

definition BACKUP_PBKDF2_ITERATIONS :: nat where
  "BACKUP_PBKDF2_ITERATIONS = 390000"

definition AES_KEY_SIZE_BYTES :: nat where
  "AES_KEY_SIZE_BYTES = 32"

text \<open>
  The functions of \<^verbatim>\<open>base64\<close>, \<^verbatim>\<open>cryptography\<close> and \<^verbatim>\<open>json\<close> that backup and restore
  call are not code of this program. They are the fields of a record that both
  functions take as their first argument; \<open>'b\<close> is the type of \<^verbatim>\<open>bytes\<close> values, \<open>'x\<close>
  the type of the values of the JSON object in the backup file. A call that can raise
  returns a sum.
  \<^item> \<open>text_value s\<close>: the string \<open>s\<close> as a value of the file;
  \<^item> \<open>b64encode_text b\<close>: \<^verbatim>\<open>base64.b64encode(b).decode('utf-8')\<close>;
  \<^item> \<open>b64decode v\<close>: \<^verbatim>\<open>base64.b64decode(v)\<close>;
  \<^item> \<open>str_encode s\<close>: \<^verbatim>\<open>s.encode('utf-8')\<close>;
  \<^item> \<open>pbkdf2_derive salt length iterations password\<close>:
    \<^verbatim>\<open>PBKDF2HMAC(algorithm=SHA256(), length, salt, iterations).derive(password)\<close>;
  \<^item> \<open>aesgcm_encrypt key nonce data\<close>: \<^verbatim>\<open>AESGCM(key).encrypt(nonce, data, None)\<close>;
  \<^item> \<open>aesgcm_decrypt key nonce data\<close>: \<^verbatim>\<open>AESGCM(key).decrypt(nonce, data, None)\<close>;
  \<^item> \<open>dumps_encode v\<close>: \<^verbatim>\<open>json.dumps(v, indent=4).encode('utf-8')\<close>;
  \<^item> \<open>decode_loads b\<close>: \<^verbatim>\<open>json.loads(b.decode('utf-8'))\<close>;
  \<^item> \<open>nonempty b\<close>: the truth value of \<open>b\<close>.
\<close>

record ('x, 'b) codec =
  text_value :: "string \<Rightarrow> 'x"
  b64encode_text :: "'b \<Rightarrow> 'x"
  b64decode :: "'x \<Rightarrow> exn + 'b"
  str_encode :: "string \<Rightarrow> 'b"
  pbkdf2_derive :: "'b \<Rightarrow> nat \<Rightarrow> nat \<Rightarrow> 'b \<Rightarrow> 'b"
  aesgcm_encrypt :: "'b \<Rightarrow> 'b \<Rightarrow> 'b \<Rightarrow> 'b"
  aesgcm_decrypt :: "'b \<Rightarrow> 'b \<Rightarrow> 'b \<Rightarrow> exn + 'b"
  dumps_encode :: "json \<Rightarrow> 'b"
  decode_loads :: "'b \<Rightarrow> exn + json"
  nonempty :: "'b \<Rightarrow> bool"

text \<open>
  What \<^verbatim>\<open>json.load(f)\<close> gives for the chosen file: the file cannot be opened, it is not
  JSON, it is JSON but not an object, or it is an object.
\<close>

datatype 'x file_content = Unreadable | NotJson | NotDict | Dict "(string \<times> 'x) list"

text \<open>How \<^verbatim>\<open>_handle_backup_tokens\<close> ends: the dialog shown, and the object written.\<close>

datatype 'x backup_outcome =
    BackupNoFile
  | BackupNoTokens
  | BackupCancelled
  | BackupWritten "(string \<times> 'x) list"
  | BackupError

definition falsy_input :: "string option \<Rightarrow> bool" where
  "falsy_input v \<longleftrightarrow> (case v of None \<Rightarrow> True | Some s \<Rightarrow> s = [])"

text \<open>
  \<^verbatim>\<open>_handle_backup_tokens\<close>; \<open>salt\<close> and \<open>nonce\<close> are what the two calls of
  \<^verbatim>\<open>os.urandom\<close> return.
\<close>

definition handle_backup_tokens ::
  "('x, 'b) codec \<Rightarrow> jtext keyring \<Rightarrow> string option \<Rightarrow> string option \<Rightarrow> 'b \<Rightarrow> 'b
     \<Rightarrow> 'x backup_outcome" where
  "handle_backup_tokens lib kr backup_file_path backup_password salt nonce =
     (if falsy_input backup_file_path then BackupNoFile
      else
        (case get_all_token_data kr of
           Inl e \<Rightarrow> BackupError
         | Inr all_tokens \<Rightarrow>
             (if all_tokens = [] then BackupNoTokens
              else if falsy_input backup_password then BackupCancelled
              else
                (let tokens_data_bytes = dumps_encode lib (JArr (map JObj all_tokens));
                     aes_key = pbkdf2_derive lib salt AES_KEY_SIZE_BYTES BACKUP_PBKDF2_ITERATIONS
                                 (str_encode lib (the backup_password));
                     encrypted_data_bytes = aesgcm_encrypt lib aes_key nonce tokens_data_bytes
                 in BackupWritten
                      [(''version'', text_value lib ''1.0_encrypted''),
                       (''salt'', b64encode_text lib salt),
                       (''nonce'', b64encode_text lib nonce),
                       (''ciphertext'', b64encode_text lib encrypted_data_bytes)]))))"

text \<open>How \<^verbatim>\<open>_handle_restore_tokens\<close> ends: the dialog shown last.\<close>

datatype restore_outcome =
    RestoreNoFile
  | InvalidFormat
  | RestoreCancelled
  | DecryptionFailed
  | DecryptionEmpty
  | NotTokenList
  | NoTokensInBackup
  | RestoreDeclined
  | RestoreSummary nat nat
  | InvalidJsonFile
  | RestoreError

text \<open>
  \<^verbatim>\<open>isinstance(tokens_to_restore, list) and all(isinstance(token, dict) for token in
  tokens_to_restore)\<close>, with the list of dicts when it holds.
\<close>

fun dict_items :: "json list \<Rightarrow> (string \<times> json) list list option" where
  "dict_items [] = Some []"
| "dict_items (JObj d # rest) = map_option (\<lambda>ds. d # ds) (dict_items rest)"
| "dict_items (_ # rest) = None"

fun as_token_list :: "json \<Rightarrow> (string \<times> json) list list option" where
  "as_token_list (JArr xs) = dict_items xs"
| "as_token_list _ = None"

text \<open>
  Lines 170 to 222 of \<^verbatim>\<open>_handle_restore_tokens\<close>: from the file to the list of tokens, or
  to the dialog of the \<^verbatim>\<open>return\<close> or \<^verbatim>\<open>except\<close> clause taken. Nothing here touches
  the keyring.
\<close>

definition open_backup ::
  "('x, 'b) codec \<Rightarrow> 'x file_content \<Rightarrow> string option
     \<Rightarrow> restore_outcome + (string \<times> json) list list" where
  "open_backup lib file backup_password =
     (case file of
        Unreadable \<Rightarrow> Inl RestoreError
      | NotJson \<Rightarrow> Inl InvalidJsonFile
      | NotDict \<Rightarrow> Inl InvalidFormat
      | Dict backup_content \<Rightarrow>
          (if \<not> (\<forall>key\<in>set [''version'', ''salt'', ''nonce'', ''ciphertext''].
                     key \<in> set (map fst backup_content))
           then Inl InvalidFormat
           else if falsy_input backup_password then Inl RestoreCancelled
           else
             (case b64decode lib (the (map_of backup_content ''salt'')) of
                Inl e \<Rightarrow> Inl RestoreError
              | Inr salt \<Rightarrow>
             (case b64decode lib (the (map_of backup_content ''nonce'')) of
                Inl e \<Rightarrow> Inl RestoreError
              | Inr nonce \<Rightarrow>
             (case b64decode lib (the (map_of backup_content ''ciphertext'')) of
                Inl e \<Rightarrow> Inl RestoreError
              | Inr ciphertext \<Rightarrow>
                  (let aes_key = pbkdf2_derive lib salt AES_KEY_SIZE_BYTES BACKUP_PBKDF2_ITERATIONS
                                   (str_encode lib (the backup_password))
                   in case aesgcm_decrypt lib aes_key nonce ciphertext of
                        Inl e \<Rightarrow> Inl DecryptionFailed
                      | Inr tokens_data_bytes \<Rightarrow>
                          (if \<not> nonempty lib tokens_data_bytes then Inl DecryptionEmpty
                           else
                             (case decode_loads lib tokens_data_bytes of
                                Inl e \<Rightarrow> Inl (if e = JSONDecodeError then InvalidJsonFile
                                               else RestoreError)
                              | Inr tokens_to_restore \<Rightarrow>
                                  (case as_token_list tokens_to_restore of
                                     None \<Rightarrow> Inl NotTokenList
                                   | Some tokens \<Rightarrow> Inr tokens)))))))))"

text \<open>
  The \<^verbatim>\<open>for\<close> loop of \<^verbatim>\<open>_handle_restore_tokens\<close>. \<^verbatim>\<open>save_token_secret\<close> is called with
  four keyword arguments: \<^verbatim>\<open>identifier\<close> and \<^verbatim>\<open>recovery_codes\<close> take their default
  \<^verbatim>\<open>None\<close>. Every exception of the call counts as one failed token.
\<close>

fun restore_tokens ::
  "jtext keyring \<Rightarrow> (string \<times> json) list list \<Rightarrow> nat \<Rightarrow> nat \<Rightarrow> jtext keyring \<times> nat \<times> nat" where
  "restore_tokens kr [] restored_count failed_count = (kr, restored_count, failed_count)"
| "restore_tokens kr (token_data # rest) restored_count failed_count =
     (let account_name = dict_get token_data ''account_name'';
          issuer_name = dict_get token_data ''issuer_name'';
          secret_key = dict_get token_data ''secret_key'';
          token_type = dict_get_default token_data ''type'' (JStr ''TOTP'')
      in if truthy account_name \<and> truthy issuer_name \<and> truthy secret_key then
           (case save_token_secret kr account_name issuer_name secret_key token_type None JNull of
              (kr', Inr identifier) \<Rightarrow> restore_tokens kr' rest (restored_count + 1) failed_count
            | (kr', Inl e) \<Rightarrow> restore_tokens kr' rest restored_count (failed_count + 1))
         else restore_tokens kr rest restored_count (failed_count + 1))"

text \<open>
  \<^verbatim>\<open>_handle_restore_tokens\<close>: \<open>file\<close> is the content of the chosen file,
  \<open>backup_password\<close> the answer of the password dialog, \<open>confirm_restore\<close> the answer
  of the confirmation dialog.
\<close>

definition handle_restore_tokens ::
  "('x, 'b) codec \<Rightarrow> jtext keyring \<Rightarrow> string option \<Rightarrow> 'x file_content \<Rightarrow> string option \<Rightarrow> bool
     \<Rightarrow> jtext keyring \<times> restore_outcome" where
  "handle_restore_tokens lib kr restore_file_path file backup_password confirm_restore =
     (if falsy_input restore_file_path then (kr, RestoreNoFile)
      else
        (case open_backup lib file backup_password of
           Inl outcome \<Rightarrow> (kr, outcome)
         | Inr tokens_to_restore \<Rightarrow>
             (if tokens_to_restore = [] then (kr, NoTokensInBackup)
              else if \<not> confirm_restore then (kr, RestoreDeclined)
              else
                (case restore_tokens kr tokens_to_restore 0 0 of
                   (kr', restored_count, failed_count) \<Rightarrow>
                     (kr', RestoreSummary restored_count failed_count)))))"

text \<open>
  A library on which the model can be run. Bytes are terms: what \<^verbatim>\<open>os.urandom\<close> or a
  file gives, an encoded string, an encoded JSON text, a derived key, a sealed message.
  Decrypting gives the message back under the key and nonce it was sealed with and
  fails otherwise; decoding base64 gives back what was encoded and fails on other text.
\<close>

datatype sbytes =
    Raw string
  | Utf8 string
  | JsonText json
  | Key sbytes nat nat sbytes
  | Sealed sbytes sbytes sbytes

datatype svalue = Text string | Base64 sbytes

definition term_codec :: "(svalue, sbytes) codec" where
  "term_codec =
     \<lparr>text_value = Text,
      b64encode_text = Base64,
      b64decode = (\<lambda>v. case v of Base64 b \<Rightarrow> Inr b | Text s \<Rightarrow> Inl OtherError),
      str_encode = Utf8,
      pbkdf2_derive = Key,
      aesgcm_encrypt = Sealed,
      aesgcm_decrypt = (\<lambda>key nonce data.
         case data of
           Sealed k n m \<Rightarrow> (if k = key \<and> n = nonce then Inr m else Inl OtherError)
         | _ \<Rightarrow> Inl OtherError),
      dumps_encode = JsonText,
      decode_loads = (\<lambda>b. case b of JsonText v \<Rightarrow> Inr v | _ \<Rightarrow> Inl JSONDecodeError),
      nonempty = (\<lambda>b. case b of Raw s \<Rightarrow> s \<noteq> [] | Utf8 s \<Rightarrow> s \<noteq> [] | _ \<Rightarrow> True)\<rparr>"

text \<open>
  The invariant of a working vault: the keyring can be read and written, the index is a
  list without duplicates, and every entry of it is the identifier of a retrievable
  record.
\<close>

definition vault_ok :: "jtext keyring \<Rightarrow> bool" where
  "vault_ok kr \<longleftrightarrow>
     get_error kr = None \<and> set_error kr = None \<and>
     (case get_all_token_identifiers kr of
        JArr xs \<Rightarrow>
          distinct xs \<and>
          (\<forall>x\<in>set xs. case x of JStr i \<Rightarrow> get_token_secret kr i \<noteq> None | _ \<Rightarrow> False)
      | _ \<Rightarrow> False)"

text \<open>
  A token of a backup that \<^verbatim>\<open>save_token_secret\<close> accepts: account, issuer and secret
  are non-empty, account and issuer are strings, and the type, if there is one, is
  TOTP or HOTP in any case.
\<close>

definition restorable :: "(string \<times> json) list \<Rightarrow> bool" where
  "restorable d \<longleftrightarrow>
     (case (dict_get d ''account_name'', dict_get d ''issuer_name'') of
        (JStr a, JStr i) \<Rightarrow> a \<noteq> [] \<and> i \<noteq> []
      | _ \<Rightarrow> False)
     \<and> truthy (dict_get d ''secret_key'')
     \<and> (case dict_get_default d ''type'' (JStr ''TOTP'') of
          JStr t \<Rightarrow> upper t \<in> {''TOTP'', ''HOTP''}
        | _ \<Rightarrow> False)"

text \<open>
  The backup of the vault with one token, written with the password
  \<^verbatim>\<open>"correct horse"\<close>.
\<close>

definition example_backup :: "(string \<times> svalue) list" where
  "example_backup =
     [(''version'', Text ''1.0_encrypted''),
      (''salt'', Base64 (Raw ''0123456789abcdef'')),
      (''nonce'', Base64 (Raw ''0123456789ab'')),
      (''ciphertext'',
       Base64 (Sealed
         (Key (Raw ''0123456789abcdef'') AES_KEY_SIZE_BYTES BACKUP_PBKDF2_ITERATIONS
            (Utf8 ''correct horse''))
         (Raw ''0123456789ab'')
         (JsonText (JArr [JObj [(''identifier'', JStr ''github_bob''),
                                (''account_name'', JStr ''bob''),
                                (''issuer_name'', JStr ''GitHub''),
                                (''secret_key'', JStr ''JBSWY3DPEHPK3PXP''),
                                (''type'', JStr ''TOTP''),
                                (''recovery_codes'', JStr ''r1 r2'')]]))))]"

text \<open>
  The record under identifier \<open>n\<close> has the account name, issuer, secret and type of
  the token \<open>d\<close> of a backup (the type \<^verbatim>\<open>"TOTP"\<close> when the token has none).
\<close>

definition holds_token :: "jtext keyring \<Rightarrow> string \<Rightarrow> (string \<times> json) list \<Rightarrow> bool" where
  "holds_token kr n d \<longleftrightarrow>
     (case get_token_secret kr n of
        None \<Rightarrow> False
      | Some info \<Rightarrow>
          dict_get info ''account_name'' = dict_get d ''account_name''
          \<and> dict_get info ''issuer_name'' = dict_get d ''issuer_name''
          \<and> dict_get info ''secret_key'' = dict_get d ''secret_key''
          \<and> dict_get info ''type'' = dict_get_default d ''type'' (JStr ''TOTP''))"

text \<open>
  A backup, under the same password, whose one token has the account and issuer of the
  token in the vault and a type that \<^verbatim>\<open>save_token_secret\<close> does not support.
\<close>

definition unsupported_backup :: "(string \<times> svalue) list" where
  "unsupported_backup =
     [(''version'', Text ''1.0_encrypted''),
      (''salt'', Base64 (Raw ''0123456789abcdef'')),
      (''nonce'', Base64 (Raw ''0123456789ab'')),
      (''ciphertext'',
       Base64 (Sealed
         (Key (Raw ''0123456789abcdef'') AES_KEY_SIZE_BYTES BACKUP_PBKDF2_ITERATIONS
            (Utf8 ''correct horse''))
         (Raw ''0123456789ab'')
         (JsonText (JArr [JObj [(''account_name'', JStr ''bob''),
                                (''issuer_name'', JStr ''GitHub''),
                                (''secret_key'', JStr ''GEZDGNBVGY3TQOJQ''),
                                (''type'', JStr ''steam'')]]))))]"

section \<open>The collision loop ends\<close>

lemma digit_char_inj: "a < 10 \<Longrightarrow> b < 10 \<Longrightarrow> digit_char a = digit_char b \<Longrightarrow> a = b"
proof -
  assume a: "a < 10" and b: "b < 10" and e: "digit_char a = digit_char b"
  have d: "distinct ''0123456789''" by simp
  have "length ''0123456789'' = 10" by simp
  with a b e d show ?thesis
    unfolding digit_char_def by (metis nth_eq_iff_index_eq)
qed

lemma str_nat_nonempty: "str_nat n \<noteq> []"
  by (subst str_nat.simps) simp

lemma str_nat_inj: "str_nat a = str_nat b \<Longrightarrow> a = b"
proof (induction a arbitrary: b rule: str_nat.induct)
  case (1 n)
  show ?case
  proof (cases "n < 10")
    case True
    show ?thesis
    proof (cases "b < 10")
      case True
      with \<open>n < 10\<close> "1.prems" show ?thesis
        by (simp add: str_nat.simps [of n] str_nat.simps [of b] digit_char_inj)
    next
      case False
      with \<open>n < 10\<close> "1.prems" str_nat_nonempty [of "b div 10"] show ?thesis
        by (simp add: str_nat.simps [of n] str_nat.simps [of b] Cons_eq_append_conv)
    qed
  next
    case False
    show ?thesis
    proof (cases "b < 10")
      case True
      with False "1.prems" str_nat_nonempty [of "n div 10"] show ?thesis
        by (simp add: str_nat.simps [of n] str_nat.simps [of b] append_eq_Cons_conv)
    next
      case bf: False
      from False bf "1.prems" have e: "str_nat (n div 10) = str_nat (b div 10)"
        and d: "digit_char (n mod 10) = digit_char (b mod 10)"
        by (simp_all add: str_nat.simps [of n] str_nat.simps [of b])
      from "1.IH" [OF False e] have "n div 10 = b div 10" .
      moreover from d have "n mod 10 = b mod 10" by (intro digit_char_inj) simp_all
      ultimately show ?thesis by (metis div_mult_mod_eq)
    qed
  qed
qed


lemma get_token_secret_entry:
  "get_token_secret kr k \<noteq> None \<Longrightarrow> map_of (passwords kr) k \<noteq> None"
  by (simp add: get_token_secret_def get_password_def split: option.splits)

lemma get_token_secret_key:
  "get_token_secret kr k \<noteq> None \<Longrightarrow> k \<in> fst ` set (passwords kr)"
  using get_token_secret_entry [of kr k] by (simp add: map_of_eq_None_iff)

lemma pending_step:
  "card (pending kr cur c) =
     card (pending kr cur (Suc c)) + (if cur @ ''_'' @ str_nat c \<in> fst ` set (passwords kr) then 1 else 0)"
proof -
  let ?K = "fst ` set (passwords kr)"
  let ?f = "\<lambda>n. cur @ ''_'' @ str_nat n"
  have fin: "finite (pending kr cur (Suc c))" by (simp add: pending_def)
  have notin: "?f c \<notin> pending kr cur (Suc c)"
    by (auto simp: pending_def dest: str_nat_inj)
  have split: "pending kr cur c = pending kr cur (Suc c) \<union> (if ?f c \<in> ?K then {?f c} else {})"
  proof (rule set_eqI)
    fix k
    show "k \<in> pending kr cur c \<longleftrightarrow>
          k \<in> pending kr cur (Suc c) \<union> (if ?f c \<in> ?K then {?f c} else {})"
    proof
      assume "k \<in> pending kr cur c"
      then obtain n where k: "k \<in> ?K" and n: "c \<le> n" and e: "k = ?f n"
        unfolding pending_def by blast
      show "k \<in> pending kr cur (Suc c) \<union> (if ?f c \<in> ?K then {?f c} else {})"
      proof (cases "n = c")
        case True
        with k e show ?thesis by simp
      next
        case False
        with n have "Suc c \<le> n" by simp
        with k e have "k \<in> pending kr cur (Suc c)" unfolding pending_def by blast
        then show ?thesis by simp
      qed
    next
      assume "k \<in> pending kr cur (Suc c) \<union> (if ?f c \<in> ?K then {?f c} else {})"
      then consider "k \<in> pending kr cur (Suc c)" | "?f c \<in> ?K" "k = ?f c"
        by (auto split: if_splits)
      then show "k \<in> pending kr cur c"
      proof cases
        case 1
        then obtain n where "k \<in> ?K" "Suc c \<le> n" "k = ?f n" unfolding pending_def by blast
        then have "k \<in> ?K" "c \<le> n" "k = ?f n" by simp_all
        then show ?thesis unfolding pending_def by blast
      next
        case 2
        then show ?thesis unfolding pending_def by blast
      qed
    qed
  qed
  show ?thesis
    by (subst split) (use fin notin in simp)
qed

termination resolve_collision
proof (relation "measure (\<lambda>(kr, cur, temp, c).
          card (pending kr cur c) + (if temp \<in> fst ` set (passwords kr) then 1 else 0))")
  show "wf (measure (\<lambda>(kr, cur, temp, c).
          card (pending kr cur c) + (if temp \<in> fst ` set (passwords kr) then 1 else 0)))"
    by simp
next
  fix kr :: "jtext keyring" and current_identifier temp_id :: string and count :: nat
  assume "get_token_secret kr temp_id \<noteq> None"
  then have "temp_id \<in> fst ` set (passwords kr)" by (rule get_token_secret_key)
  then show "((kr, current_identifier, current_identifier @ ''_'' @ str_nat count, count + 1),
              (kr, current_identifier, temp_id, count))
             \<in> measure (\<lambda>(kr, cur, temp, c).
                 card (pending kr cur c) + (if temp \<in> fst ` set (passwords kr) then 1 else 0))"
    by (simp add: pending_step [of kr current_identifier count])
qed

declare resolve_collision.simps [simp del]

section \<open>Properties of the vault\<close>

lemma get_password_ok: "get_error kr = None \<Longrightarrow> get_password kr k = Inr (map_of (passwords kr) k)"
  by (simp add: get_password_def)

lemma set_password_ok:
  "set_error kr = None \<Longrightarrow>
     set_password kr k v = (kr\<lparr>passwords := AList.update k v (passwords kr)\<rparr>, None)"
  by (simp add: set_password_def)

lemma map_of_update: "map_of (AList.update k v al) k' = (if k' = k then Some v else map_of al k')"
  by (simp add: update_conv')

lemma map_of_delete: "map_of (AList.delete k al) k' = (if k' = k then None else map_of al k')"
  by (simp add: delete_conv')

text \<open>What the two readers return, in terms of the stored entry.\<close>

lemma get_token_secret_eq:
  "get_error kr = None \<Longrightarrow> map_of (passwords kr) k = Some (Dumped (JObj d)) \<Longrightarrow>
   get_token_secret kr k =
     Some [(''identifier'', JStr k),
           (''account_name'', dict_get d ''account_name''),
           (''issuer_name'', dict_get d ''issuer_name''),
           (''secret_key'', dict_get d ''secret_key''),
           (''type'', dict_get_default d ''type'' (JStr ''TOTP'')),
           (''recovery_codes'', dict_get_default d ''recovery_codes'' (JStr ''''))]"
  by (simp add: get_token_secret_def get_password_ok)

lemma get_token_secret_cong:
  "get_error kr' = get_error kr \<Longrightarrow> map_of (passwords kr') k = map_of (passwords kr) k \<Longrightarrow>
   get_token_secret kr' k = get_token_secret kr k"
  by (cases "get_error kr") (simp_all add: get_token_secret_def get_password_def)

lemma get_token_secret_Some_iff:
  "get_token_secret kr k \<noteq> None \<longleftrightarrow>
     get_error kr = None \<and> (\<exists>d. map_of (passwords kr) k = Some (Dumped (JObj d)))"
proof (cases "get_error kr")
  case (Some e)
  then show ?thesis by (simp add: get_token_secret_def get_password_def)
next
  case None
  show ?thesis
  proof (cases "map_of (passwords kr) k")
    case n: None
    with None show ?thesis by (simp add: get_token_secret_def get_password_def)
  next
    case (Some t)
    with None show ?thesis
      by (cases t) (auto simp: get_token_secret_def get_password_def split: json.splits)
  qed
qed

lemma get_all_token_identifiers_eq:
  "get_error kr = None \<Longrightarrow> map_of (passwords kr) ACCOUNTS_LIST_KEY = Some (Dumped v) \<Longrightarrow>
   get_all_token_identifiers kr = v"
  by (simp add: get_all_token_identifiers_def get_password_ok)

lemma get_all_token_identifiers_absent:
  "map_of (passwords kr) ACCOUNTS_LIST_KEY = None \<Longrightarrow> get_all_token_identifiers kr = JArr []"
  by (simp add: get_all_token_identifiers_def get_password_def split: option.splits)

lemma get_all_token_identifiers_cong:
  "get_error kr' = get_error kr \<Longrightarrow>
   map_of (passwords kr') ACCOUNTS_LIST_KEY = map_of (passwords kr) ACCOUNTS_LIST_KEY \<Longrightarrow>
   get_all_token_identifiers kr' = get_all_token_identifiers kr"
  by (cases "get_error kr") (simp_all add: get_all_token_identifiers_def get_password_def)

text \<open>The two index writers touch the index entry only.\<close>

lemma add_account_to_list_frame:
  assumes "add_account_to_list kr i = (kr', r)"
  shows "get_error kr' = get_error kr \<and> set_error kr' = set_error kr \<and> delete_error kr' = delete_error kr
         \<and> (\<forall>k. k \<noteq> ACCOUNTS_LIST_KEY \<longrightarrow> map_of (passwords kr') k = map_of (passwords kr) k)"
  using assms
  by (auto simp: add_account_to_list_def set_password_def map_of_update Let_def
           split: sum.splits bool.splits option.splits prod.splits if_splits)

lemma remove_account_from_list_frame:
  assumes "remove_account_from_list kr i = (kr', r)"
  shows "get_error kr' = get_error kr \<and> set_error kr' = set_error kr \<and> delete_error kr' = delete_error kr
         \<and> (\<forall>k. k \<noteq> ACCOUNTS_LIST_KEY \<longrightarrow> map_of (passwords kr') k = map_of (passwords kr) k)"
  using assms
  by (auto simp: remove_account_from_list_def set_password_def map_of_update Let_def
           split: sum.splits bool.splits option.splits prod.splits if_splits)


lemma resolve_collision_unused:
  "get_token_secret kr (resolve_collision kr cur temp c) = None"
proof (induction kr cur temp c rule: resolve_collision.induct)
  case (1 kr cur temp c)
  then show ?case
    by (subst resolve_collision.simps) simp
qed

lemma resolve_collision_shape:
  "resolve_collision kr cur temp c = temp \<or>
   (\<exists>n\<ge>c. resolve_collision kr cur temp c = cur @ ''_'' @ str_nat n)"
proof (induction kr cur temp c rule: resolve_collision.induct)
  case (1 kr cur temp c)
  show ?case
  proof (cases "get_token_secret kr temp \<noteq> None")
    case True
    from "1.IH" [OF True] obtain n where "c \<le> n"
      "resolve_collision kr cur (cur @ ''_'' @ str_nat c) (c + 1) = cur @ ''_'' @ str_nat n"
      by (auto simp: Suc_le_eq intro: less_imp_le)
    with True show ?thesis by (subst (1 2) resolve_collision.simps) auto
  next
    case False
    then show ?thesis by (subst resolve_collision.simps) simp
  qed
qed


text \<open>What a save that returns has done.\<close>

lemma save_token_secret_Inr:
  assumes "save_token_secret kr a i s t ident rc = (kr', Inr r)"
  shows "truthy a \<and> truthy s \<and> truthy i
       \<and> (\<exists>ty. t = JStr ty \<and> upper ty \<in> {''TOTP'', ''HOTP''})
       \<and> choose_identifier kr ident i a = Inr r
       \<and> (\<exists>kr1. set_password kr r
                   (Dumped (JObj [(''account_name'', a), (''issuer_name'', i), (''secret_key'', s),
                                 (''type'', t), (''recovery_codes'', rc)])) = (kr1, None)
               \<and> add_account_to_list kr1 r = (kr', None))"
proof -
  from assms have v: "truthy a" "truthy s" "truthy i"
    by (auto simp: save_token_secret_def split: if_splits)
  from assms v obtain ty where t: "t = JStr ty"
    by (cases t) (auto simp: save_token_secret_def)
  from assms v t have u: "upper ty \<in> {''TOTP'', ''HOTP''}"
    by (auto simp: save_token_secret_def split: if_splits)
  from assms v t u obtain c where c: "choose_identifier kr ident i a = Inr c"
    by (cases "choose_identifier kr ident i a") (auto simp: save_token_secret_def)
  let ?d = "Dumped (JObj [(''account_name'', a), (''issuer_name'', i), (''secret_key'', s),
                                 (''type'', t), (''recovery_codes'', rc)])"
  obtain kr1 e1 where s1: "set_password kr c ?d = (kr1, e1)" by (cases "set_password kr c ?d")
  obtain kr2 e2 where s2: "add_account_to_list kr1 c = (kr2, e2)" by (cases "add_account_to_list kr1 c")
  from assms v t u c s1 s2 have "e1 = None \<and> e2 = None \<and> kr2 = kr' \<and> c = r"
    by (auto simp: save_token_secret_def json_dumps_def split: option.splits)
  with v t u c s1 s2 show ?thesis by auto
qed


lemma reserved_not_field:
  "ACCOUNTS_LIST_KEY \<notin> set (map fst [(''account_name'', a), (''issuer_name'', i), (''secret_key'', s),
                                 (''type'', t), (''recovery_codes'', rc)])"
  by (simp add: ACCOUNTS_LIST_KEY_def)

lemma save_token_secret_effect:
  assumes g: "get_error kr = None" and st: "set_error kr = None"
    and sv: "save_token_secret kr a i s t ident rc = (kr', Inr r)"
  shows "r \<noteq> ACCOUNTS_LIST_KEY"
    and "map_of (passwords kr') r =
           Some (Dumped (JObj [(''account_name'', a), (''issuer_name'', i), (''secret_key'', s),
                               (''type'', t), (''recovery_codes'', rc)]))"
    and "get_error kr' = None" and "set_error kr' = None" and "delete_error kr' = delete_error kr"
    and "\<And>k. k \<noteq> r \<Longrightarrow> k \<noteq> ACCOUNTS_LIST_KEY \<Longrightarrow> map_of (passwords kr') k = map_of (passwords kr) k"
proof -
  let ?d = "JObj [(''account_name'', a), (''issuer_name'', i), (''secret_key'', s),
                               (''type'', t), (''recovery_codes'', rc)]"
  from save_token_secret_Inr [OF sv] obtain kr1 where
    s1: "set_password kr r (Dumped ?d) = (kr1, None)" and s2: "add_account_to_list kr1 r = (kr', None)"
    by blast
  from s1 st have kr1: "kr1 = kr\<lparr>passwords := AList.update r (Dumped ?d) (passwords kr)\<rparr>"
    by (simp add: set_password_ok)
  show ne: "r \<noteq> ACCOUNTS_LIST_KEY"
  proof
    assume r: "r = ACCOUNTS_LIST_KEY"
    with kr1 g have "get_all_token_identifiers kr1 = ?d"
      by (intro get_all_token_identifiers_eq) (simp_all add: map_of_update)
    with s2 r show False
      by (simp add: add_account_to_list_def ACCOUNTS_LIST_KEY_def)
  qed
  note fr = add_account_to_list_frame [OF s2]
  from fr kr1 ne show "map_of (passwords kr') r = Some (Dumped ?d)" by (simp add: map_of_update)
  from fr kr1 g show "get_error kr' = None" by simp
  from fr kr1 st show "set_error kr' = None" by simp
  from fr kr1 show "delete_error kr' = delete_error kr" by simp
  fix k assume "k \<noteq> r" "k \<noteq> ACCOUNTS_LIST_KEY"
  with fr kr1 show "map_of (passwords kr') k = map_of (passwords kr) k" by (simp add: map_of_update)
qed

lemma example_vault_built:
  "save_token_secret empty_keyring (JStr ''bob'') (JStr ''GitHub'') (JStr ''JBSWY3DPEHPK3PXP'')
     (JStr ''TOTP'') None (JStr ''r1 r2'') = (example_vault, Inr ''github_bob'')"
  by code_simp

lemma remove_account_from_list_ok:
  assumes "get_error kr = None" "set_error kr = None"
    and "get_all_token_identifiers kr = JArr ys" "distinct ys"
  shows "\<exists>kr'. remove_account_from_list kr i = (kr', None)
            \<and> py_in i (get_all_token_identifiers kr') = Inr False"
proof (cases "JStr i \<in> set ys")
  case False
  with assms show ?thesis by (simp add: remove_account_from_list_def)
next
  case True
  let ?kr' = "kr\<lparr>passwords := AList.update ACCOUNTS_LIST_KEY (Dumped (JArr (remove1 (JStr i) ys))) (passwords kr)\<rparr>"
  from True assms have r: "remove_account_from_list kr i = (?kr', None)"
    by (simp add: remove_account_from_list_def set_password_ok json_dumps_def)
  from assms have "get_all_token_identifiers ?kr' = JArr (remove1 (JStr i) ys)"
    by (intro get_all_token_identifiers_eq) (simp_all add: map_of_update)
  with assms r show ?thesis by simp
qed

text \<open>
  C3, as stated, fails: when \<^verbatim>\<open>keyring.delete_password\<close> raises an error that is neither
  \<open>NoKeyringError\<close> nor \<open>PasswordDeleteError\<close>, \<^verbatim>\<open>delete_token_secret\<close> only prints it and
  returns; the identifier is still in the accounts index.
\<close>

theorem failed_delete_keeps_index_entry:
  "delete_token_secret (example_vault\<lparr>delete_error := Some OtherError\<rparr>) ''github_bob''
     = (example_vault\<lparr>delete_error := Some OtherError\<rparr>, None)
   \<and> py_in ''github_bob''
        (get_all_token_identifiers
          (fst (delete_token_secret (example_vault\<lparr>delete_error := Some OtherError\<rparr>) ''github_bob'')))
     = Inr True"
  by code_simp

text \<open>
  C3, amended: with a readable and writable index that holds no duplicates,
  \<^verbatim>\<open>delete_token_secret\<close> returns with the identifier absent from the accounts index
  whenever \<^verbatim>\<open>keyring.delete_password\<close> succeeds or raises \<open>PasswordDeleteError\<close>; when it
  raises any other error, the keyring, index included, is left as it was.
\<close>

theorem delete_token_secret_index:
  assumes "get_error kr = None" and "set_error kr = None"
    and "get_all_token_identifiers kr = JArr xs" and "distinct xs"
  shows "(delete_error kr = None \<or> delete_error kr = Some PasswordDeleteError \<longrightarrow>
            (\<exists>kr'. delete_token_secret kr identifier = (kr', None)
                \<and> py_in identifier (get_all_token_identifiers kr') = Inr False))
       \<and> (\<forall>e. delete_error kr = Some e \<and> e \<noteq> PasswordDeleteError \<longrightarrow>
            delete_token_secret kr identifier = (kr, None))"
proof (intro conjI impI allI)
  fix e assume "delete_error kr = Some e \<and> e \<noteq> PasswordDeleteError"
  then show "delete_token_secret kr identifier = (kr, None)"
    by (simp add: delete_token_secret_def delete_password_def delete_handlers_def)
next
  assume d: "delete_error kr = None \<or> delete_error kr = Some PasswordDeleteError"
  show "\<exists>kr'. delete_token_secret kr identifier = (kr', None)
                \<and> py_in identifier (get_all_token_identifiers kr') = Inr False"
  proof (cases "delete_error kr = None \<and> map_of (passwords kr) identifier \<noteq> None")
    case False
    with d have "delete_password kr identifier = (kr, Some PasswordDeleteError)"
      by (auto simp: delete_password_def)
    then have "delete_token_secret kr identifier = remove_account_from_list kr identifier"
      by (simp add: delete_token_secret_def delete_handlers_def)
    with remove_account_from_list_ok [OF assms, of "identifier"] show ?thesis by simp
  next
    case True
    let ?kr1 = "kr\<lparr>passwords := AList.delete identifier (passwords kr)\<rparr>"
    from True have dp: "delete_password kr identifier = (?kr1, None)"
      by (auto simp: delete_password_def)
    have "\<exists>ys. get_all_token_identifiers ?kr1 = JArr ys \<and> distinct ys"
    proof (cases "identifier = ACCOUNTS_LIST_KEY")
      case True
      then have "get_all_token_identifiers ?kr1 = JArr []"
        by (intro get_all_token_identifiers_absent) (simp add: map_of_delete)
      then show ?thesis by simp
    next
      case False
      then have "get_all_token_identifiers ?kr1 = get_all_token_identifiers kr"
        by (intro get_all_token_identifiers_cong) (simp_all add: map_of_delete)
      with assms show ?thesis by simp
    qed
    then obtain ys where ys: "get_all_token_identifiers ?kr1 = JArr ys" "distinct ys" by blast
    from assms have "get_error ?kr1 = None" "set_error ?kr1 = None" by simp_all
    from remove_account_from_list_ok [OF this ys, of "identifier"] obtain kr' where
      "remove_account_from_list ?kr1 identifier = (kr', None)"
      "py_in identifier (get_all_token_identifiers kr') = Inr False" by blast
    with dp show ?thesis by (simp add: delete_token_secret_def)
  qed
qed

theorem delete_token_secret_index_witness:
  "(\<exists>kr'. delete_token_secret example_vault ''github_bob'' = (kr', None)
        \<and> py_in ''github_bob'' (get_all_token_identifiers kr') = Inr False)
   \<and> delete_token_secret (example_vault\<lparr>delete_error := Some NoKeyringError\<rparr>) ''github_bob''
       = (example_vault\<lparr>delete_error := Some NoKeyringError\<rparr>, None)"
proof -
  have a: "get_error example_vault = None" "set_error example_vault = None"
    "get_all_token_identifiers example_vault = JArr [JStr ''github_bob'']"
    "distinct [JStr ''github_bob'']" "delete_error example_vault = None"
    by code_simp+
  let ?v = "example_vault\<lparr>delete_error := Some NoKeyringError\<rparr>"
  have b: "get_error ?v = None" "set_error ?v = None"
    "get_all_token_identifiers ?v = JArr [JStr ''github_bob'']"
    "delete_error ?v = Some NoKeyringError"
    by code_simp+
  from delete_token_secret_index [OF a(1-4), of "''github_bob''"] a(5)
       delete_token_secret_index [OF b(1-3) a(4), of "''github_bob''"] b(4)
  show ?thesis by simp
qed

text \<open>
  C4, as stated, fails: reading a stored token with no backend gives the same result as
  reading an identifier that has no record with the backend at hand, and the list of
  identifiers of a vault with no backend is the list of an empty vault.
\<close>

theorem backend_failure_looks_like_absence:
  "get_token_secret (no_backend example_vault) ''github_bob'' = get_token_secret example_vault ''gitlab_bob''
   \<and> get_all_token_identifiers (no_backend example_vault) = get_all_token_identifiers empty_keyring"
  by code_simp

text \<open>
  C4, amended: when the backend cannot be read, \<^verbatim>\<open>get_token_secret\<close> returns
  \<^verbatim>\<open>None\<close> and \<^verbatim>\<open>get_all_token_identifiers\<close> returns the empty list, which are the
  values they return when the backend works and holds no record under the identifier
  and no index.
\<close>

theorem reads_hide_backend_failure:
  assumes "get_error kr = Some e"
    and "get_error kr' = None"
    and "map_of (passwords kr') identifier = None"
    and "map_of (passwords kr') ACCOUNTS_LIST_KEY = None"
  shows "get_token_secret kr identifier = None \<and> get_token_secret kr' identifier = None
       \<and> get_all_token_identifiers kr = JArr [] \<and> get_all_token_identifiers kr' = JArr []"
  using assms
  by (simp add: get_token_secret_def get_all_token_identifiers_def get_password_def)

theorem reads_hide_backend_failure_witness:
  "get_token_secret (no_backend example_vault) ''github_bob'' = None
   \<and> get_token_secret empty_keyring ''github_bob'' = None
   \<and> get_all_token_identifiers (no_backend example_vault) = JArr []
   \<and> get_all_token_identifiers empty_keyring = JArr []"
proof -
  have a: "get_error (no_backend example_vault) = Some NoKeyringError"
    "get_error (empty_keyring :: jtext keyring) = None"
    "map_of (passwords (empty_keyring :: jtext keyring)) ''github_bob'' = None"
    "map_of (passwords (empty_keyring :: jtext keyring)) ACCOUNTS_LIST_KEY = None"
    by code_simp+
  from reads_hide_backend_failure [OF a] show ?thesis .
qed



lemma get_token_secret_stored:
  "get_error kr = None \<Longrightarrow> map_of (passwords kr) k = Some (Dumped (JObj d)) \<Longrightarrow>
   get_token_secret kr k \<noteq> None"
  using get_token_secret_Some_iff [of kr k] by blast


lemma new_identifier_Inr:
  assumes "new_identifier kr i a = Inr r"
  shows "\<exists>c. candidate_identifier i a = Inr c \<and> r = resolve_collision kr c c 1"
  using assms by (auto simp: new_identifier_def split: sum.splits)



text \<open>
  C10: a save that returns has accepted a token type whose upper-case form is TOTP or
  HOTP, and the record read back under the returned identifier carries the type exactly
  as it was passed; a type whose upper-case form is neither is rejected; and reading a
  stored record gives the stored type field whatever it is, and \<^verbatim>\<open>"TOTP"\<close> only when
  the record has no type field.
\<close>

theorem token_type_kept_verbatim:
  "(get_error kr = None \<and> set_error kr = None
      \<and> save_token_secret kr a i s t ident rc = (kr', Inr r)
    \<longrightarrow> (\<exists>ty info. t = JStr ty \<and> upper ty \<in> {''TOTP'', ''HOTP''}
            \<and> get_token_secret kr' r = Some info \<and> dict_get info ''type'' = JStr ty))
   \<and> (truthy a \<and> truthy s \<and> truthy i \<and> upper ty' \<notin> {''TOTP'', ''HOTP''}
    \<longrightarrow> save_token_secret kr a i s (JStr ty') ident rc = (kr, Inl ValueError))
   \<and> (get_error kr = None \<and> map_of (passwords kr) k = Some (Dumped (JObj d))
    \<longrightarrow> (\<exists>info. get_token_secret kr k = Some info
            \<and> dict_get info ''type''
                = (case map_of d ''type'' of None \<Rightarrow> JStr ''TOTP'' | Some v \<Rightarrow> v)))"
proof (intro conjI impI)
  assume h: "get_error kr = None \<and> set_error kr = None
      \<and> save_token_secret kr a i s t ident rc = (kr', Inr r)"
  then have g: "get_error kr = None" and st: "set_error kr = None"
    and sv: "save_token_secret kr a i s t ident rc = (kr', Inr r)" by simp_all
  from save_token_secret_Inr [OF sv] obtain ty where ty: "t = JStr ty" "upper ty \<in> {''TOTP'', ''HOTP''}"
    by blast
  note eff = save_token_secret_effect [OF g st sv]
  from get_token_secret_eq [OF eff(3) eff(2)] ty
  show "\<exists>ty info. t = JStr ty \<and> upper ty \<in> {''TOTP'', ''HOTP''}
            \<and> get_token_secret kr' r = Some info \<and> dict_get info ''type'' = JStr ty"
    by (simp add: dict_get_def dict_get_default_def)
next
  assume "truthy a \<and> truthy s \<and> truthy i \<and> upper ty' \<notin> {''TOTP'', ''HOTP''}"
  then show "save_token_secret kr a i s (JStr ty') ident rc = (kr, Inl ValueError)"
    by (simp add: save_token_secret_def)
next
  assume "get_error kr = None \<and> map_of (passwords kr) k = Some (Dumped (JObj d))"
  then have "get_error kr = None" "map_of (passwords kr) k = Some (Dumped (JObj d))" by simp_all
  from get_token_secret_eq [OF this]
  show "\<exists>info. get_token_secret kr k = Some info
            \<and> dict_get info ''type''
                = (case map_of d ''type'' of None \<Rightarrow> JStr ''TOTP'' | Some v \<Rightarrow> v)"
    by (simp add: dict_get_def dict_get_default_def)
qed

theorem token_type_kept_verbatim_witness:
  "(\<exists>info. get_token_secret
             (fst (save_token_secret empty_keyring (JStr ''bob'') (JStr ''GitHub'')
                    (JStr ''JBSWY3DPEHPK3PXP'') (JStr ''totp'') None JNull)) ''github_bob'' = Some info
           \<and> dict_get info ''type'' = JStr ''totp'')
   \<and> (\<exists>info. get_token_secret
             (fst (save_token_secret empty_keyring (JStr ''bob'') (JStr ''GitHub'')
                    (JStr ''JBSWY3DPEHPK3PXP'') (JStr ''Hotp'') None JNull)) ''github_bob'' = Some info
           \<and> dict_get info ''type'' = JStr ''Hotp'')
   \<and> save_token_secret empty_keyring (JStr ''bob'') (JStr ''GitHub'') (JStr ''JBSWY3DPEHPK3PXP'')
        (JStr ''steam'') None JNull = (empty_keyring, Inl ValueError)
   \<and> (\<exists>info. get_token_secret
             \<lparr>passwords = [(''old_entry'', Dumped (JObj [(''account_name'', JStr ''bob''),
                              (''issuer_name'', JStr ''GitHub''), (''secret_key'', JStr ''JBSWY3DPEHPK3PXP'')]))],
              get_error = None, set_error = None, delete_error = None\<rparr> ''old_entry'' = Some info
           \<and> dict_get info ''type'' = JStr ''TOTP'')"
proof -
  let ?kr = "empty_keyring :: jtext keyring"
  let ?s1 = "save_token_secret ?kr (JStr ''bob'') (JStr ''GitHub'') (JStr ''JBSWY3DPEHPK3PXP'')
               (JStr ''totp'') None JNull"
  let ?s2 = "save_token_secret ?kr (JStr ''bob'') (JStr ''GitHub'') (JStr ''JBSWY3DPEHPK3PXP'')
               (JStr ''Hotp'') None JNull"
  let ?d = "[(''account_name'', JStr ''bob''), (''issuer_name'', JStr ''GitHub''),
             (''secret_key'', JStr ''JBSWY3DPEHPK3PXP'')]"
  let ?old = "\<lparr>passwords = [(''old_entry'', Dumped (JObj ?d))],
              get_error = None, set_error = None, delete_error = None\<rparr> :: jtext keyring"
  have g: "get_error ?kr = None" and st: "set_error ?kr = None" by code_simp+
  have h1: "?s1 = (fst ?s1, Inr ''github_bob'')" by code_simp
  have h2: "?s2 = (fst ?s2, Inr ''github_bob'')" by code_simp
  have v: "truthy (JStr ''bob'')" "truthy (JStr ''JBSWY3DPEHPK3PXP'')" "truthy (JStr ''GitHub'')"
    "upper ''steam'' \<notin> {''TOTP'', ''HOTP''}" by code_simp+
  have o: "get_error ?old = None" "map_of (passwords ?old) ''old_entry'' = Some (Dumped (JObj ?d))"
    by simp_all
  have m: "map_of ?d ''type'' = None" by simp
  from token_type_kept_verbatim [of ?kr "JStr ''bob''" "JStr ''GitHub''" "JStr ''JBSWY3DPEHPK3PXP''"
      "JStr ''totp''" None JNull "fst ?s1" "''github_bob''" "''steam''" "''old_entry''" ?d] g st h1
  have a: "\<exists>ty info. JStr ''totp'' = JStr ty \<and> get_token_secret (fst ?s1) ''github_bob'' = Some info
             \<and> dict_get info ''type'' = JStr ty"
    by blast
  from token_type_kept_verbatim [of ?kr "JStr ''bob''" "JStr ''GitHub''" "JStr ''JBSWY3DPEHPK3PXP''"
      "JStr ''Hotp''" None JNull "fst ?s2" "''github_bob''" "''steam''" "''old_entry''" ?d] g st h2
  have b: "\<exists>ty info. JStr ''Hotp'' = JStr ty \<and> get_token_secret (fst ?s2) ''github_bob'' = Some info
             \<and> dict_get info ''type'' = JStr ty"
    by blast
  from token_type_kept_verbatim [of ?kr "JStr ''bob''" "JStr ''GitHub''" "JStr ''JBSWY3DPEHPK3PXP''"
      "JStr ''totp''" None JNull "fst ?s1" "''github_bob''" "''steam''" "''old_entry''" ?d] v
  have c: "save_token_secret ?kr (JStr ''bob'') (JStr ''GitHub'') (JStr ''JBSWY3DPEHPK3PXP'')
        (JStr ''steam'') None JNull = (?kr, Inl ValueError)"
    by blast
  from token_type_kept_verbatim [of ?old "JStr ''bob''" "JStr ''GitHub''" "JStr ''JBSWY3DPEHPK3PXP''"
      "JStr ''totp''" None JNull "fst ?s1" "''github_bob''" "''steam''" "''old_entry''" ?d] o
  have "\<exists>info. get_token_secret ?old ''old_entry'' = Some info
            \<and> dict_get info ''type''
                = (case map_of ?d ''type'' of None \<Rightarrow> JStr ''TOTP'' | Some v \<Rightarrow> v)"
    by blast
  with m have d: "\<exists>info. get_token_secret ?old ''old_entry'' = Some info
            \<and> dict_get info ''type'' = JStr ''TOTP''"
    by simp
  from a b c d show ?thesis by blast
qed

text \<open>
  C2 at a failing input: in an empty vault a token of account alice at Google is added,
  then a token whose issuer is \<^verbatim>\<open>"_"\<close> and whose account is \<^verbatim>\<open>"accounts_list__"\<close>.
  The candidate identifier of the second is the key under which the index itself is
  stored; the lookup of that key finds a list, not a record, so the candidate counts as
  unused and the record is written over the index. The save then raises
  \<open>AttributeError\<close>. Afterwards the first token is still retrievable, and so is the
  second, but neither identifier is in what \<^verbatim>\<open>get_all_token_identifiers\<close> returns.
\<close>

theorem index_overwritten_by_reserved_identifier:
  "snd (save_token_secret
          (fst (save_token_secret empty_keyring (JStr ''alice'') (JStr ''Google'')
                 (JStr ''JBSWY3DPEHPK3PXP'') (JStr ''TOTP'') None (JStr [])))
          (JStr ''accounts_list__'') (JStr ''_'') (JStr ''GEZDGNBVGY3TQOJQ'') (JStr ''TOTP'') None (JStr []))
     = Inl AttributeError
   \<and> get_token_secret
        (fst (save_token_secret
          (fst (save_token_secret empty_keyring (JStr ''alice'') (JStr ''Google'')
                 (JStr ''JBSWY3DPEHPK3PXP'') (JStr ''TOTP'') None (JStr [])))
          (JStr ''accounts_list__'') (JStr ''_'') (JStr ''GEZDGNBVGY3TQOJQ'') (JStr ''TOTP'') None (JStr [])))
        ''google_alice'' \<noteq> None
   \<and> get_token_secret
        (fst (save_token_secret
          (fst (save_token_secret empty_keyring (JStr ''alice'') (JStr ''Google'')
                 (JStr ''JBSWY3DPEHPK3PXP'') (JStr ''TOTP'') None (JStr [])))
          (JStr ''accounts_list__'') (JStr ''_'') (JStr ''GEZDGNBVGY3TQOJQ'') (JStr ''TOTP'') None (JStr [])))
        ''__accounts_list__'' \<noteq> None
   \<and> py_iter (get_all_token_identifiers
        (fst (save_token_secret
          (fst (save_token_secret empty_keyring (JStr ''alice'') (JStr ''Google'')
                 (JStr ''JBSWY3DPEHPK3PXP'') (JStr ''TOTP'') None (JStr [])))
          (JStr ''accounts_list__'') (JStr ''_'') (JStr ''GEZDGNBVGY3TQOJQ'') (JStr ''TOTP'') None (JStr []))))
     = Inr [JStr ''account_name'', JStr ''issuer_name'', JStr ''secret_key'', JStr ''type'',
            JStr ''recovery_codes'']"
  by code_simp

theorem index_overwritten_by_reserved_identifier_witness:
  "get_token_secret
        (fst (save_token_secret
          (fst (save_token_secret empty_keyring (JStr ''alice'') (JStr ''Google'')
                 (JStr ''JBSWY3DPEHPK3PXP'') (JStr ''TOTP'') None (JStr [])))
          (JStr ''accounts_list__'') (JStr ''_'') (JStr ''GEZDGNBVGY3TQOJQ'') (JStr ''TOTP'') None (JStr [])))
        ''google_alice'' \<noteq> None
   \<and> py_iter (get_all_token_identifiers
        (fst (save_token_secret
          (fst (save_token_secret empty_keyring (JStr ''alice'') (JStr ''Google'')
                 (JStr ''JBSWY3DPEHPK3PXP'') (JStr ''TOTP'') None (JStr [])))
          (JStr ''accounts_list__'') (JStr ''_'') (JStr ''GEZDGNBVGY3TQOJQ'') (JStr ''TOTP'') None (JStr []))))
     = Inr [JStr ''account_name'', JStr ''issuer_name'', JStr ''secret_key'', JStr ''type'',
            JStr ''recovery_codes'']"
  using index_overwritten_by_reserved_identifier by blast

section \<open>Properties of the PIN\<close>

lemma hex_digit_facts:
  "\<forall>k\<in>set [0..<16]. hex_value (hex_digit k) = Some k \<and> \<not> is_space (hex_digit k)"
  by code_simp

lemma hex_digit_value: "k < 16 \<Longrightarrow> hex_value (hex_digit k) = Some k"
  using hex_digit_facts by simp

lemma hex_digit_not_space: "k < 16 \<Longrightarrow> \<not> is_space (hex_digit k)"
  using hex_digit_facts by simp

lemma of_char_less_256: "(of_char c :: nat) < 256"
proof -
  have "(of_char c :: nat) mod 256 < 256" by simp
  then show ?thesis by (simp only: of_char_mod_256)
qed

lemma hex_Cons:
  "hex (b # bs) = hex_digit ((of_char b :: nat) div 16) # hex_digit ((of_char b :: nat) mod 16) # hex bs"
  by (simp add: hex_def)

lemma fromhex_hex: "fromhex (hex bs) = Inr bs"
proof (induction bs)
  case Nil
  show ?case by (simp add: hex_def)
next
  case (Cons b bs)
  let ?n = "of_char b :: nat"
  have d: "?n div 16 < 16" using of_char_less_256 [of b] by (simp add: less_mult_imp_div_less)
  have m: "?n mod 16 < 16" by simp
  have "char_of (16 * (?n div 16) + ?n mod 16) = b" by simp
  with Cons hex_digit_value [OF d] hex_digit_value [OF m] hex_digit_not_space [OF d]
  show ?case by (simp add: hex_Cons)
qed

lemma hex_eq_Nil: "hex bs = [] \<longleftrightarrow> bs = []"
  by (cases bs) (simp_all add: hex_def)

lemma keys_differ: "SALT_KEY \<noteq> PIN_HASH_KEY"
  by (simp add: SALT_KEY_def PIN_HASH_KEY_def)

lemma verify_after_set:
  assumes "get_error kr = None" and "set_error kr = None" and "4 \<le> length pin"
    and "salt \<noteq> []" and "hash_pin pbkdf2 pin salt \<noteq> []"
  shows "\<exists>kr'. set_app_pin pbkdf2 kr pin salt = (kr', None)
           \<and> (\<forall>p. verify_app_pin pbkdf2 kr' p \<longleftrightarrow> hash_pin pbkdf2 p salt = hash_pin pbkdf2 pin salt)"
proof -
  let ?kr' = "kr\<lparr>passwords := AList.update PIN_HASH_KEY (hex (hash_pin pbkdf2 pin salt))
                   (AList.update SALT_KEY (hex salt) (passwords kr))\<rparr>"
  from assms have s: "set_app_pin pbkdf2 kr pin salt = (?kr', None)"
    by (simp add: set_app_pin_def set_password_def)
  have "verify_app_pin pbkdf2 ?kr' p \<longleftrightarrow> hash_pin pbkdf2 p salt = hash_pin pbkdf2 pin salt" for p
    using assms keys_differ
    by (simp add: verify_app_pin_def get_password_def map_of_update falsy_entry_def hex_eq_Nil
                  fromhex_hex)
  with s show ?thesis by blast
qed



section \<open>Properties of the unlock protocol\<close>

lemma unlock_loop_calls:
  "length (snd (snd (unlock_loop pbkdf2 kr entries b self calls)))
     \<le> length calls + (MAX_PIN_ATTEMPTS - pin_attempts self)"
proof (induction pbkdf2 kr entries b self calls rule: unlock_loop.induct)
  case (1 pbkdf2 kr entries b self calls)
  show ?case
  proof (cases "pin_attempts self < MAX_PIN_ATTEMPTS")
    case False
    then show ?thesis by (subst unlock_loop.simps) simp
  next
    case True
    show ?thesis
    proof (cases "entries (pin_attempts self)")
      case None
      with True show ?thesis by (subst unlock_loop.simps) simp
    next
      case (Some pin)
      show ?thesis
      proof (cases "pin = []")
        case e: True
        from "1.IH"(1) [OF True Some e] True Some e show ?thesis
          by (subst unlock_loop.simps) simp
      next
        case ne: False
        show ?thesis
        proof (cases "verify_app_pin pbkdf2 kr pin")
          case v: True
          with True Some ne show ?thesis by (subst unlock_loop.simps) simp
        next
          case nv: False
          from "1.IH"(2) [OF True Some ne nv] True Some ne nv show ?thesis
            by (subst unlock_loop.simps) simp
        qed
      qed
    qed
  qed
qed

lemma unlock_loop_fail:
  assumes "pin_attempts self < MAX_PIN_ATTEMPTS"
    and "entries (pin_attempts self) = Some p" and "p \<noteq> []" and "\<not> verify_app_pin pbkdf2 kr p"
  shows "unlock_loop pbkdf2 kr entries b self calls
           = unlock_loop pbkdf2 kr entries b (self\<lparr>pin_attempts := pin_attempts self + 1\<rparr>) (calls @ [p])"
  using assms by (subst unlock_loop.simps) simp

lemma unlock_loop_success:
  assumes "pin_attempts self < MAX_PIN_ATTEMPTS"
    and "entries (pin_attempts self) = Some p" and "p \<noteq> []" and "verify_app_pin pbkdf2 kr p"
  shows "unlock_loop pbkdf2 kr entries b self calls = (self\<lparr>app_unlocked := True\<rparr>, Unlocked, calls @ [p])"
  using assms by (subst unlock_loop.simps) simp

lemma unlock_loop_end:
  "\<not> pin_attempts self < MAX_PIN_ATTEMPTS \<Longrightarrow>
   unlock_loop pbkdf2 kr entries b self calls = (self, Exited, calls)"
  by (subst unlock_loop.simps) simp

lemma unlock_loop_fails:
  assumes "\<forall>j<m. \<exists>p. entries j = Some p \<and> p \<noteq> [] \<and> \<not> verify_app_pin pbkdf2 kr p"
    and "m \<le> MAX_PIN_ATTEMPTS"
  shows "unlock_loop pbkdf2 kr entries b (self\<lparr>pin_attempts := 0\<rparr>) []
           = unlock_loop pbkdf2 kr entries b (self\<lparr>pin_attempts := m\<rparr>)
               (map (\<lambda>j. the (entries j)) [0..<m])"
  using assms
proof (induction m)
  case 0
  show ?case by simp
next
  case (Suc m)
  from Suc.prems obtain p where p: "entries m = Some p" "p \<noteq> []" "\<not> verify_app_pin pbkdf2 kr p"
    by (meson lessI)
  from Suc.prems have "\<forall>j<m. \<exists>p. entries j = Some p \<and> p \<noteq> [] \<and> \<not> verify_app_pin pbkdf2 kr p"
    and "m \<le> MAX_PIN_ATTEMPTS" and lt: "m < MAX_PIN_ATTEMPTS"
    by simp_all
  from Suc.IH [OF this(1,2)]
  have "unlock_loop pbkdf2 kr entries b (self\<lparr>pin_attempts := 0\<rparr>) []
          = unlock_loop pbkdf2 kr entries b (self\<lparr>pin_attempts := m\<rparr>)
              (map (\<lambda>j. the (entries j)) [0..<m])" .
  also from unlock_loop_fail [of "self\<lparr>pin_attempts := m\<rparr>" entries p pbkdf2 kr b
                               "map (\<lambda>j. the (entries j)) [0..<m]"] p lt
  have "\<dots> = unlock_loop pbkdf2 kr entries b (self\<lparr>pin_attempts := Suc m\<rparr>)
              (map (\<lambda>j. the (entries j)) [0..<m] @ [p])"
    by simp
  finally show ?case using p by simp
qed


text \<open>
  C7: when the first three entries are PINs that \<^verbatim>\<open>verify_app_pin\<close> rejects, the protocol
  ends in the exit of the process after exactly these three calls of \<^verbatim>\<open>verify_app_pin\<close>;
  whatever is entered, \<^verbatim>\<open>verify_app_pin\<close> is called at most three times; a PIN accepted
  after \<open>k < 3\<close> rejected ones unlocks; and the count of attempts left behind by an earlier
  unlock has no effect, since every unlock starts from zero.
\<close>

theorem attempt_cap:
  "((\<forall>j<3. \<exists>p. entries j = Some p \<and> p \<noteq> [] \<and> \<not> verify_app_pin pbkdf2 kr p)
      \<longrightarrow> prompt_for_pin_and_unlock pbkdf2 kr entries b self
            = (self\<lparr>pin_attempts := 3\<rparr>, Exited, map (\<lambda>j. the (entries j)) [0..<3]))
   \<and> length (snd (snd (prompt_for_pin_and_unlock pbkdf2 kr entries b self))) \<le> 3
   \<and> (k < 3 \<and> (\<forall>j<k. \<exists>p. entries j = Some p \<and> p \<noteq> [] \<and> \<not> verify_app_pin pbkdf2 kr p)
         \<and> entries k = Some pin \<and> pin \<noteq> [] \<and> verify_app_pin pbkdf2 kr pin
      \<longrightarrow> prompt_for_pin_and_unlock pbkdf2 kr entries b self
            = (self\<lparr>pin_attempts := k, app_unlocked := True\<rparr>, Unlocked,
               map (\<lambda>j. the (entries j)) [0..<k] @ [pin]))
   \<and> prompt_for_pin_and_unlock pbkdf2 kr entries b (self\<lparr>pin_attempts := n\<rparr>)
        = prompt_for_pin_and_unlock pbkdf2 kr entries b self"
proof (intro conjI impI)
  assume a: "\<forall>j<3. \<exists>p. entries j = Some p \<and> p \<noteq> [] \<and> \<not> verify_app_pin pbkdf2 kr p"
  have "unlock_loop pbkdf2 kr entries b (self\<lparr>pin_attempts := 0\<rparr>) []
           = unlock_loop pbkdf2 kr entries b (self\<lparr>pin_attempts := 3\<rparr>)
               (map (\<lambda>j. the (entries j)) [0..<3])"
    by (rule unlock_loop_fails [OF a]) (simp add: MAX_PIN_ATTEMPTS_def)
  also have "\<dots> = (self\<lparr>pin_attempts := 3\<rparr>, Exited, map (\<lambda>j. the (entries j)) [0..<3])"
    by (rule unlock_loop_end) (simp add: MAX_PIN_ATTEMPTS_def)
  finally show "prompt_for_pin_and_unlock pbkdf2 kr entries b self
            = (self\<lparr>pin_attempts := 3\<rparr>, Exited, map (\<lambda>j. the (entries j)) [0..<3])"
    by (simp only: prompt_for_pin_and_unlock_def)
next
  from unlock_loop_calls [of pbkdf2 kr entries b "self\<lparr>pin_attempts := 0\<rparr>" "[]"]
  show "length (snd (snd (prompt_for_pin_and_unlock pbkdf2 kr entries b self))) \<le> 3"
    by (simp add: prompt_for_pin_and_unlock_def MAX_PIN_ATTEMPTS_def)
next
  show "prompt_for_pin_and_unlock pbkdf2 kr entries b (self\<lparr>pin_attempts := n\<rparr>)
        = prompt_for_pin_and_unlock pbkdf2 kr entries b self"
    by (simp add: prompt_for_pin_and_unlock_def)
next
  assume a: "k < 3 \<and> (\<forall>j<k. \<exists>p. entries j = Some p \<and> p \<noteq> [] \<and> \<not> verify_app_pin pbkdf2 kr p)
         \<and> entries k = Some pin \<and> pin \<noteq> [] \<and> verify_app_pin pbkdf2 kr pin"
  then have k: "k < 3" and f: "\<forall>j<k. \<exists>p. entries j = Some p \<and> p \<noteq> [] \<and> \<not> verify_app_pin pbkdf2 kr p"
    and ok: "entries k = Some pin" "pin \<noteq> []" "verify_app_pin pbkdf2 kr pin" by simp_all
  have "unlock_loop pbkdf2 kr entries b (self\<lparr>pin_attempts := 0\<rparr>) []
           = unlock_loop pbkdf2 kr entries b (self\<lparr>pin_attempts := k\<rparr>)
               (map (\<lambda>j. the (entries j)) [0..<k])"
    by (rule unlock_loop_fails [OF f]) (use k in \<open>simp add: MAX_PIN_ATTEMPTS_def\<close>)
  also from unlock_loop_success [of "self\<lparr>pin_attempts := k\<rparr>" entries pin pbkdf2 kr b
                                   "map (\<lambda>j. the (entries j)) [0..<k]"] k ok
  have "\<dots> = (self\<lparr>pin_attempts := k, app_unlocked := True\<rparr>, Unlocked,
               map (\<lambda>j. the (entries j)) [0..<k] @ [pin])"
    by (simp add: MAX_PIN_ATTEMPTS_def)
  finally show "prompt_for_pin_and_unlock pbkdf2 kr entries b self
            = (self\<lparr>pin_attempts := k, app_unlocked := True\<rparr>, Unlocked,
               map (\<lambda>j. the (entries j)) [0..<k] @ [pin])"
    by (simp only: prompt_for_pin_and_unlock_def)
qed

theorem attempt_cap_witness:
  "prompt_for_pin_and_unlock padded_prefix
      (fst (set_app_pin padded_prefix empty_keyring ''1234'' ''0123456789abcdef''))
      (\<lambda>j. Some ''0000'') True \<lparr>app_unlocked = False, pin_attempts = 0\<rparr>
     = (\<lparr>app_unlocked = False, pin_attempts = 3\<rparr>, Exited, [''0000'', ''0000'', ''0000''])
   \<and> prompt_for_pin_and_unlock padded_prefix
      (fst (set_app_pin padded_prefix empty_keyring ''1234'' ''0123456789abcdef''))
      (\<lambda>j. if j = 2 then Some ''1234'' else Some ''0000'') True \<lparr>app_unlocked = False, pin_attempts = 0\<rparr>
     = (\<lparr>app_unlocked = True, pin_attempts = 2\<rparr>, Unlocked, [''0000'', ''0000'', ''1234''])"
proof -
  let ?kr = "fst (set_app_pin padded_prefix empty_keyring ''1234'' ''0123456789abcdef'')"
  let ?self = "\<lparr>app_unlocked = False, pin_attempts = 0\<rparr>"
  have a: "get_error (empty_keyring :: string keyring) = None"
    "set_error (empty_keyring :: string keyring) = None" "4 \<le> length ''1234''"
    "''0123456789abcdef'' \<noteq> []"
    "hash_pin padded_prefix ''1234'' ''0123456789abcdef'' \<noteq> []"
    by (simp_all add: empty_keyring_def hash_pin_def padded_prefix_def encode_utf8_def)
  from verify_after_set [OF a] obtain kr' where
    s: "set_app_pin padded_prefix empty_keyring ''1234'' ''0123456789abcdef'' = (kr', None)"
    and vv: "\<forall>p. verify_app_pin padded_prefix kr' p \<longleftrightarrow>
          hash_pin padded_prefix p ''0123456789abcdef'' = hash_pin padded_prefix ''1234'' ''0123456789abcdef''"
    by (elim exE conjE)
  have "?kr = kr'" by (simp only: s fst_conv)
  with vv have
    v: "\<And>p. verify_app_pin padded_prefix ?kr p \<longleftrightarrow>
          hash_pin padded_prefix p ''0123456789abcdef'' = hash_pin padded_prefix ''1234'' ''0123456789abcdef''"
    by (simp only:)
  have ok: "verify_app_pin padded_prefix ?kr ''1234''" by (simp only: v)
  have nv: "\<not> verify_app_pin padded_prefix ?kr ''0000''"
    by (simp only: v) (simp add: hash_pin_def padded_prefix_def encode_utf8_def)
  have h1: "\<forall>j<3. \<exists>p. (\<lambda>j. Some ''0000'') j = Some p \<and> p \<noteq> [] \<and> \<not> verify_app_pin padded_prefix ?kr p"
    using nv by simp
  let ?e = "\<lambda>j::nat. if j = 2 then Some ''1234'' else Some ''0000''"
  have h2: "(2::nat) < 3 \<and> (\<forall>j<2. \<exists>p. ?e j = Some p \<and> p \<noteq> [] \<and> \<not> verify_app_pin padded_prefix ?kr p)
         \<and> ?e 2 = Some ''1234'' \<and> ''1234'' \<noteq> [] \<and> verify_app_pin padded_prefix ?kr ''1234''"
    using nv ok by simp
  note t1 = attempt_cap [of "\<lambda>j. Some ''0000''" padded_prefix ?kr True ?self 0 "''1234''" 0]
  note t2 = attempt_cap [of ?e padded_prefix ?kr True ?self 2 "''1234''" 0]
  from t1 [THEN conjunct1, THEN mp, OF h1] have r1: "prompt_for_pin_and_unlock padded_prefix ?kr (\<lambda>j. Some ''0000'') True ?self
     = (?self\<lparr>pin_attempts := 3\<rparr>, Exited, map (\<lambda>j. the (Some ''0000'')) [0..<3])"
    by simp
  from t2 [THEN conjunct2, THEN conjunct2, THEN conjunct1, THEN mp, OF h2] have r2: "prompt_for_pin_and_unlock padded_prefix ?kr ?e True ?self
     = (?self\<lparr>pin_attempts := 2, app_unlocked := True\<rparr>, Unlocked,
               map (\<lambda>j. the (?e j)) [0..<2] @ [''1234''])"
    by simp
  have m1: "map (\<lambda>j::nat. the (Some ''0000'')) [0..<3] = [''0000'', ''0000'', ''0000'']"
    by (simp add: upt_rec)
  have m2: "map (\<lambda>j. the (?e j)) [0..<2] @ [''1234''] = [''0000'', ''0000'', ''1234'']"
    by (simp add: upt_rec)
  from r1 r2 show ?thesis unfolding m1 m2 by simp
qed

section \<open>Properties of backup and restore\<close>

text \<open>
  C8: whenever \<^verbatim>\<open>_handle_restore_tokens\<close> ends in anything but the restore summary
  (among them the decryption failure and the format errors), the keyring it leaves is
  the keyring it found; and when the keyring has changed, the backup had been decoded,
  decrypted and parsed into a list of tokens before.
\<close>

theorem failed_import_leaves_vault:
  assumes "handle_restore_tokens lib kr restore_file_path file backup_password confirm_restore
             = (kr', outcome)"
  shows "(outcome \<in> {DecryptionFailed, DecryptionEmpty, InvalidFormat, NotTokenList,
                      InvalidJsonFile, RestoreError} \<longrightarrow> kr' = kr)
       \<and> ((\<forall>r f. outcome \<noteq> RestoreSummary r f) \<longrightarrow> kr' = kr)
       \<and> (kr' \<noteq> kr \<longrightarrow> (\<exists>tokens r f. open_backup lib file backup_password = Inr tokens
                                \<and> outcome = RestoreSummary r f))"
proof -
  have main: "kr' = kr \<or> (\<exists>tokens r f. open_backup lib file backup_password = Inr tokens
                                \<and> outcome = RestoreSummary r f)"
  proof (cases "falsy_input restore_file_path")
    case True
    with assms show ?thesis by (simp add: handle_restore_tokens_def)
  next
    case False
    show ?thesis
    proof (cases "open_backup lib file backup_password")
      case (Inl out)
      with False assms show ?thesis by (simp add: handle_restore_tokens_def)
    next
      case (Inr tokens)
      show ?thesis
      proof (cases "tokens = [] \<or> \<not> confirm_restore")
        case True
        with False Inr assms show ?thesis
          by (auto simp: handle_restore_tokens_def split: if_splits)
      next
        case nt: False
        obtain k r f where "restore_tokens kr tokens 0 0 = (k, r, f)"
          by (cases "restore_tokens kr tokens 0 0") auto
        with nt False Inr assms have "outcome = RestoreSummary r f"
          by (auto simp: handle_restore_tokens_def)
        with Inr show ?thesis by blast
      qed
    qed
  qed
  then show ?thesis by auto
qed

lemma example_vault_data:
  "get_all_token_data example_vault
     = Inr [[(''identifier'', JStr ''github_bob''), (''account_name'', JStr ''bob''),
             (''issuer_name'', JStr ''GitHub''), (''secret_key'', JStr ''JBSWY3DPEHPK3PXP''),
             (''type'', JStr ''TOTP''), (''recovery_codes'', JStr ''r1 r2'')]]"
  by code_simp

lemma example_backup_written:
  "handle_backup_tokens term_codec example_vault (Some ''vault.json'') (Some ''correct horse'')
     (Raw ''0123456789abcdef'') (Raw ''0123456789ab'') = BackupWritten example_backup"
  by (simp add: handle_backup_tokens_def example_vault_data falsy_input_def term_codec_def
                example_backup_def)

lemma open_example_backup_wrong_password:
  "open_backup term_codec (Dict example_backup) (Some ''battery staple'') = Inl DecryptionFailed"
  by (simp add: open_backup_def example_backup_def falsy_input_def term_codec_def)

lemma open_example_backup:
  "open_backup term_codec (Dict example_backup) (Some ''correct horse'')
     = Inr [[(''identifier'', JStr ''github_bob''), (''account_name'', JStr ''bob''),
             (''issuer_name'', JStr ''GitHub''), (''secret_key'', JStr ''JBSWY3DPEHPK3PXP''),
             (''type'', JStr ''TOTP''), (''recovery_codes'', JStr ''r1 r2'')]]"
  by (simp add: open_backup_def example_backup_def falsy_input_def term_codec_def)

theorem failed_import_leaves_vault_witness:
  "snd (handle_restore_tokens term_codec example_vault (Some ''vault.json'') (Dict example_backup)
          (Some ''battery staple'') True) = DecryptionFailed
   \<and> fst (handle_restore_tokens term_codec example_vault (Some ''vault.json'') (Dict example_backup)
          (Some ''battery staple'') True) = example_vault"
proof -
  let ?r = "handle_restore_tokens term_codec example_vault (Some ''vault.json'') (Dict example_backup)
          (Some ''battery staple'') True"
  have o: "snd ?r = DecryptionFailed"
    by (simp add: handle_restore_tokens_def open_example_backup_wrong_password falsy_input_def)
  then have h: "?r = (fst ?r, DecryptionFailed)" by (metis prod.collapse)
  have m: "DecryptionFailed \<in> {DecryptionFailed, DecryptionEmpty, InvalidFormat, NotTokenList,
                      InvalidJsonFile, RestoreError}" by simp
  from failed_import_leaves_vault [OF h, THEN conjunct1, THEN mp, OF m] o show ?thesis by simp
qed

lemma restore_example_tokens:
  "snd (restore_tokens empty_keyring
          [[(''identifier'', JStr ''github_bob''), (''account_name'', JStr ''bob''),
            (''issuer_name'', JStr ''GitHub''), (''secret_key'', JStr ''JBSWY3DPEHPK3PXP''),
            (''type'', JStr ''TOTP''), (''recovery_codes'', JStr ''r1 r2'')]] 0 0) = (1, 0)
   \<and> get_token_secret
        (fst (restore_tokens empty_keyring
          [[(''identifier'', JStr ''github_bob''), (''account_name'', JStr ''bob''),
            (''issuer_name'', JStr ''GitHub''), (''secret_key'', JStr ''JBSWY3DPEHPK3PXP''),
            (''type'', JStr ''TOTP''), (''recovery_codes'', JStr ''r1 r2'')]] 0 0))
        ''github_bob''
      = Some [(''identifier'', JStr ''github_bob''), (''account_name'', JStr ''bob''),
              (''issuer_name'', JStr ''GitHub''), (''secret_key'', JStr ''JBSWY3DPEHPK3PXP''),
              (''type'', JStr ''TOTP''), (''recovery_codes'', JNull)]"
  by code_simp

lemma handle_restore_example:
  "handle_restore_tokens term_codec empty_keyring (Some ''vault.json'') (Dict example_backup)
     (Some ''correct horse'') True
   = (fst (restore_tokens empty_keyring
          [[(''identifier'', JStr ''github_bob''), (''account_name'', JStr ''bob''),
            (''issuer_name'', JStr ''GitHub''), (''secret_key'', JStr ''JBSWY3DPEHPK3PXP''),
            (''type'', JStr ''TOTP''), (''recovery_codes'', JStr ''r1 r2'')]] 0 0),
      RestoreSummary 1 0)"
proof -
  let ?t = "[[(''identifier'', JStr ''github_bob''), (''account_name'', JStr ''bob''),
            (''issuer_name'', JStr ''GitHub''), (''secret_key'', JStr ''JBSWY3DPEHPK3PXP''),
            (''type'', JStr ''TOTP''), (''recovery_codes'', JStr ''r1 r2'')]]"
  obtain k r f where e: "restore_tokens empty_keyring ?t 0 0 = (k, r, f)"
    by (rule prod_cases3)
  with restore_example_tokens [THEN conjunct1] have "r = 1" "f = 0"
    by (simp_all del: restore_tokens.simps)
  with e show ?thesis
    by (simp add: handle_restore_tokens_def open_example_backup falsy_input_def
             del: restore_tokens.simps)
qed

text \<open>
  C1 at a failing input: the vault with one token, whose recovery codes are
  \<^verbatim>\<open>"r1 r2"\<close>, is backed up, and the backup is restored into an empty vault with the same
  password. The restore reports one token restored; the record it has written has the
  account name, issuer, secret and type of the original and \<^verbatim>\<open>None\<close> for its recovery
  codes, because the loop calls \<^verbatim>\<open>save_token_secret\<close> without \<^verbatim>\<open>recovery_codes\<close>.
\<close>

theorem restore_drops_recovery_codes:
  "handle_backup_tokens term_codec example_vault (Some ''vault.json'') (Some ''correct horse'')
     (Raw ''0123456789abcdef'') (Raw ''0123456789ab'') = BackupWritten example_backup
   \<and> get_token_secret example_vault ''github_bob''
      = Some [(''identifier'', JStr ''github_bob''), (''account_name'', JStr ''bob''),
              (''issuer_name'', JStr ''GitHub''), (''secret_key'', JStr ''JBSWY3DPEHPK3PXP''),
              (''type'', JStr ''TOTP''), (''recovery_codes'', JStr ''r1 r2'')]
   \<and> snd (handle_restore_tokens term_codec empty_keyring (Some ''vault.json'') (Dict example_backup)
            (Some ''correct horse'') True) = RestoreSummary 1 0
   \<and> get_token_secret
        (fst (handle_restore_tokens term_codec empty_keyring (Some ''vault.json'')
               (Dict example_backup) (Some ''correct horse'') True))
        ''github_bob''
      = Some [(''identifier'', JStr ''github_bob''), (''account_name'', JStr ''bob''),
              (''issuer_name'', JStr ''GitHub''), (''secret_key'', JStr ''JBSWY3DPEHPK3PXP''),
              (''type'', JStr ''TOTP''), (''recovery_codes'', JNull)]"
proof -
  have "get_token_secret example_vault ''github_bob''
      = Some [(''identifier'', JStr ''github_bob''), (''account_name'', JStr ''bob''),
              (''issuer_name'', JStr ''GitHub''), (''secret_key'', JStr ''JBSWY3DPEHPK3PXP''),
              (''type'', JStr ''TOTP''), (''recovery_codes'', JStr ''r1 r2'')]"
    by code_simp
  with example_backup_written restore_example_tokens [THEN conjunct2] show ?thesis
    by (simp only: handle_restore_example fst_conv snd_conv simp_thms)
qed

theorem restore_drops_recovery_codes_witness:
  "dict_get (the (get_token_secret example_vault ''github_bob'')) ''recovery_codes'' = JStr ''r1 r2''
   \<and> dict_get (the (get_token_secret
        (fst (handle_restore_tokens term_codec empty_keyring (Some ''vault.json'')
               (Dict example_backup) (Some ''correct horse'') True))
        ''github_bob'')) ''recovery_codes'' = JNull"
  using restore_drops_recovery_codes [THEN conjunct2, THEN conjunct1]
        restore_drops_recovery_codes [THEN conjunct2, THEN conjunct2, THEN conjunct2]
  by (simp add: dict_get_def)

section \<open>Restoring into a working vault\<close>

lemma digit_char_not_underscore: "k < 10 \<Longrightarrow> digit_char k \<noteq> CHR ''_''"
proof -
  have "\<forall>k\<in>set [0..<10]. digit_char k \<noteq> CHR ''_''" by code_simp
  then show "k < 10 \<Longrightarrow> digit_char k \<noteq> CHR ''_''" by simp
qed

lemma str_nat_last: "last (str_nat n) = digit_char (n mod 10)"
  by (subst str_nat.simps) (simp add: str_nat_nonempty)

lemma suffixed_not_reserved: "c @ ''_'' @ str_nat n \<noteq> ACCOUNTS_LIST_KEY"
proof
  assume e: "c @ ''_'' @ str_nat n = ACCOUNTS_LIST_KEY"
  have "last (c @ ''_'' @ str_nat n) = last (str_nat n)"
    by (simp add: str_nat_nonempty)
  also have "\<dots> = digit_char (n mod 10)" by (rule str_nat_last)
  finally have "last ACCOUNTS_LIST_KEY = digit_char (n mod 10)" by (simp only: e)
  moreover have "last ACCOUNTS_LIST_KEY = CHR ''_''" by (simp add: ACCOUNTS_LIST_KEY_def)
  ultimately have "digit_char (n mod 10) = CHR ''_''" by simp
  with digit_char_not_underscore [of "n mod 10"] show False by simp
qed

lemma resolve_collision_not_reserved:
  "c \<noteq> ACCOUNTS_LIST_KEY \<Longrightarrow> resolve_collision kr c c count \<noteq> ACCOUNTS_LIST_KEY"
  using resolve_collision_shape [of kr c c count] suffixed_not_reserved [of c] by auto

lemma vault_okD:
  assumes "vault_ok kr"
  shows "get_error kr = None" and "set_error kr = None"
    and "\<exists>xs. get_all_token_identifiers kr = JArr xs \<and> distinct xs
           \<and> (\<forall>x\<in>set xs. \<exists>i. x = JStr i \<and> get_token_secret kr i \<noteq> None)"
proof -
  from assms show "get_error kr = None" and "set_error kr = None"
    by (simp_all add: vault_ok_def)
  from assms obtain xs where xs: "get_all_token_identifiers kr = JArr xs"
    by (cases "get_all_token_identifiers kr") (simp_all add: vault_ok_def)
  with assms have d: "distinct xs"
    and a: "\<forall>x\<in>set xs. case x of JStr i \<Rightarrow> get_token_secret kr i \<noteq> None | _ \<Rightarrow> False"
    by (simp_all add: vault_ok_def)
  have "\<forall>x\<in>set xs. \<exists>i. x = JStr i \<and> get_token_secret kr i \<noteq> None"
  proof
    fix x assume "x \<in> set xs"
    with a have "case x of JStr i \<Rightarrow> get_token_secret kr i \<noteq> None | _ \<Rightarrow> False" by blast
    then show "\<exists>i. x = JStr i \<and> get_token_secret kr i \<noteq> None" by (cases x) simp_all
  qed
  with xs d show "\<exists>xs. get_all_token_identifiers kr = JArr xs \<and> distinct xs
           \<and> (\<forall>x\<in>set xs. \<exists>i. x = JStr i \<and> get_token_secret kr i \<noteq> None)"
    by blast
qed

lemma vault_okI:
  assumes "get_error kr = None" and "set_error kr = None"
    and "get_all_token_identifiers kr = JArr xs" and "distinct xs"
    and "\<And>x. x \<in> set xs \<Longrightarrow> \<exists>i. x = JStr i \<and> get_token_secret kr i \<noteq> None"
  shows "vault_ok kr"
proof -
  have "\<forall>x\<in>set xs. case x of JStr i \<Rightarrow> get_token_secret kr i \<noteq> None | _ \<Rightarrow> False"
  proof
    fix x assume "x \<in> set xs"
    from assms(5) [OF this] obtain i where "x = JStr i" "get_token_secret kr i \<noteq> None" by blast
    then show "case x of JStr i \<Rightarrow> get_token_secret kr i \<noteq> None | _ \<Rightarrow> False" by simp
  qed
  with assms(1-4) show ?thesis by (simp add: vault_ok_def)
qed

lemma reserved_not_retrievable:
  assumes "get_all_token_identifiers kr = JArr xs"
  shows "get_token_secret kr ACCOUNTS_LIST_KEY = None"
proof (rule ccontr)
  assume "get_token_secret kr ACCOUNTS_LIST_KEY \<noteq> None"
  then obtain d where "get_error kr = None"
    "map_of (passwords kr) ACCOUNTS_LIST_KEY = Some (Dumped (JObj d))"
    using get_token_secret_Some_iff [of kr ACCOUNTS_LIST_KEY] by blast
  then have "get_all_token_identifiers kr = JObj d" by (rule get_all_token_identifiers_eq)
  with assms show False by simp
qed

lemma save_token_secret_computed:
  assumes g: "get_error kr = None" and st: "set_error kr = None"
    and idx: "get_all_token_identifiers kr = JArr old"
    and v: "truthy a" "truthy s" "truthy i" and t: "t = JStr ty" "upper ty \<in> {''TOTP'', ''HOTP''}"
    and c: "choose_identifier kr ident i a = Inr r"
    and r: "r \<noteq> ACCOUNTS_LIST_KEY" "JStr r \<notin> set old"
  shows "save_token_secret kr a i s t ident rc =
           (kr\<lparr>passwords :=
                 AList.update ACCOUNTS_LIST_KEY (Dumped (JArr (old @ [JStr r])))
                   (AList.update r
                      (Dumped (JObj [(''account_name'', a), (''issuer_name'', i), (''secret_key'', s),
                                     (''type'', t), (''recovery_codes'', rc)]))
                      (passwords kr))\<rparr>,
            Inr r)"
proof -
  let ?d = "Dumped (JObj [(''account_name'', a), (''issuer_name'', i), (''secret_key'', s),
                          (''type'', t), (''recovery_codes'', rc)])"
  let ?kr0 = "kr\<lparr>passwords := AList.update r ?d (passwords kr)\<rparr>"
  have "get_all_token_identifiers ?kr0 = get_all_token_identifiers kr"
    using r(1) by (intro get_all_token_identifiers_cong) (simp_all add: map_of_update)
  with idx have i0: "get_all_token_identifiers ?kr0 = JArr old" by simp
  have add: "add_account_to_list ?kr0 r =
               (?kr0\<lparr>passwords := AList.update ACCOUNTS_LIST_KEY (Dumped (JArr (old @ [JStr r])))
                                      (passwords ?kr0)\<rparr>, None)"
    using i0 r(2) st by (simp add: add_account_to_list_def set_password_def json_dumps_def)
  have set: "set_password kr r ?d = (?kr0, None)"
    using st by (simp add: set_password_def)
  from v t c set add show ?thesis
    by (simp add: save_token_secret_def json_dumps_def)
qed

lemma old_entries_retrievable:
  assumes "vault_ok kr" and "get_all_token_identifiers kr = JArr old"
    and "get_token_secret kr r = None"
  shows "JStr r \<notin> set old"
proof
  assume "JStr r \<in> set old"
  with vault_okD(3) [OF assms(1)] assms(2) have "get_token_secret kr r \<noteq> None" by auto
  with assms(3) show False by simp
qed

text \<open>One pass of the restore loop in a working vault.\<close>

lemma save_new_in_ok_vault:
  assumes ok: "vault_ok kr" and idx: "get_all_token_identifiers kr = JArr old"
    and nr: "candidate_identifier i a \<noteq> Inr ACCOUNTS_LIST_KEY"
    and sv: "save_token_secret kr a i s t None rc = (kr1, res)"
  shows "(\<exists>e. res = Inl e \<and> kr1 = kr
             \<and> \<not> (truthy a \<and> truthy s \<and> truthy i
                    \<and> (\<exists>ty. t = JStr ty \<and> upper ty \<in> {''TOTP'', ''HOTP''})
                    \<and> (\<exists>c. candidate_identifier i a = Inr c)))
       \<or> (\<exists>r. res = Inr r \<and> JStr r \<notin> set old
             \<and> get_all_token_identifiers kr1 = JArr (old @ [JStr r])
             \<and> vault_ok kr1
             \<and> (\<forall>k. get_token_secret kr k \<noteq> None \<longrightarrow> get_token_secret kr1 k = get_token_secret kr k)
             \<and> map_of (passwords kr1) r =
                 Some (Dumped (JObj [(''account_name'', a), (''issuer_name'', i), (''secret_key'', s),
                                     (''type'', t), (''recovery_codes'', rc)])))"
proof -
  note g = vault_okD(1) [OF ok] and st = vault_okD(2) [OF ok]
  let ?valid = "truthy a \<and> truthy s \<and> truthy i
                 \<and> (\<exists>ty. t = JStr ty \<and> upper ty \<in> {''TOTP'', ''HOTP''})
                 \<and> (\<exists>c. candidate_identifier i a = Inr c)"
  have ch: "(\<exists>r. choose_identifier kr None i a = Inr r) \<longleftrightarrow> (\<exists>c. candidate_identifier i a = Inr c)"
    by (cases "candidate_identifier i a") (simp_all add: choose_identifier_def new_identifier_def)
  show ?thesis
  proof (cases ?valid)
    case False
    have "kr1 = kr \<and> (\<exists>e. res = Inl e)"
    proof (cases res)
      case (Inr r)
      with sv save_token_secret_Inr [of kr a i s t None rc kr1 r] False ch show ?thesis by blast
    next
      case (Inl e)
      with sv False ch show ?thesis
        by (cases t; cases "choose_identifier kr None i a")
           (auto simp: save_token_secret_def split: if_splits)
    qed
    with False show ?thesis by blast
  next
    case True
    with ch obtain ty r where v: "truthy a" "truthy s" "truthy i"
      and t: "t = JStr ty" "upper ty \<in> {''TOTP'', ''HOTP''}"
      and c: "choose_identifier kr None i a = Inr r" by blast
    from c obtain cand where cand: "candidate_identifier i a = Inr cand"
      and r: "r = resolve_collision kr cand cand 1"
      using new_identifier_Inr [of kr i a r] by (auto simp: choose_identifier_def)
    from cand nr have "cand \<noteq> ACCOUNTS_LIST_KEY" by auto
    then have rk: "r \<noteq> ACCOUNTS_LIST_KEY" unfolding r by (rule resolve_collision_not_reserved)
    have un: "get_token_secret kr r = None" unfolding r by (rule resolve_collision_unused)
    have ro: "JStr r \<notin> set old" by (rule old_entries_retrievable [OF ok idx un])
    let ?d = "Dumped (JObj [(''account_name'', a), (''issuer_name'', i), (''secret_key'', s),
                            (''type'', t), (''recovery_codes'', rc)])"
    let ?kr1 = "kr\<lparr>passwords :=
                 AList.update ACCOUNTS_LIST_KEY (Dumped (JArr (old @ [JStr r])))
                   (AList.update r ?d (passwords kr))\<rparr>"
    from save_token_secret_computed [OF g st idx v t c rk ro, of rc] sv
    have k1: "kr1 = ?kr1" and res: "res = Inr r" by simp_all
    have sv': "save_token_secret kr a i s t None rc = (kr1, Inr r)" using sv res by simp
    note eff = save_token_secret_effect [OF g st sv']
    have i1: "get_all_token_identifiers kr1 = JArr (old @ [JStr r])"
      unfolding k1 using g by (intro get_all_token_identifiers_eq) (simp_all add: map_of_update)
    have keep: "get_token_secret kr1 k = get_token_secret kr k" if "get_token_secret kr k \<noteq> None" for k
    proof -
      from that un have "k \<noteq> r" by auto
      moreover from that reserved_not_retrievable [OF idx] have "k \<noteq> ACCOUNTS_LIST_KEY" by auto
      ultimately have "map_of (passwords kr1) k = map_of (passwords kr) k" by (rule eff(6))
      with eff(3) g show ?thesis by (intro get_token_secret_cong) simp_all
    qed
    have ok1: "vault_ok kr1"
    proof (rule vault_okI [OF eff(3) eff(4) i1])
      from vault_okD(3) [OF ok] idx have "distinct old" by auto
      with ro show "distinct (old @ [JStr r])" by simp
    next
      fix x assume "x \<in> set (old @ [JStr r])"
      then consider "x \<in> set old" | "x = JStr r" by auto
      then show "\<exists>i. x = JStr i \<and> get_token_secret kr1 i \<noteq> None"
      proof cases
        case 1
        with vault_okD(3) [OF ok] idx obtain j where j: "x = JStr j" "get_token_secret kr j \<noteq> None"
          by auto
        with keep [of j] show ?thesis by simp
      next
        case 2
        with get_token_secret_stored [OF eff(3) eff(2)] show ?thesis by simp
      qed
    qed
    from res ro i1 ok1 keep eff(2) show ?thesis by blast
  qed
qed

lemma restorable_valid:
  assumes "restorable d"
  shows "truthy (dict_get d ''account_name'') \<and> truthy (dict_get d ''secret_key'')
       \<and> truthy (dict_get d ''issuer_name'')
       \<and> (\<exists>ty. dict_get_default d ''type'' (JStr ''TOTP'') = JStr ty \<and> upper ty \<in> {''TOTP'', ''HOTP''})
       \<and> (\<exists>c. candidate_identifier (dict_get d ''issuer_name'') (dict_get d ''account_name'') = Inr c)"
  using assms
  by (cases "dict_get d ''account_name''"; cases "dict_get d ''issuer_name''";
      cases "dict_get_default d ''type'' (JStr ''TOTP'')")
     (simp_all add: restorable_def candidate_identifier_def)

lemma valid_restorable:
  assumes "truthy (dict_get d ''account_name'')" and "truthy (dict_get d ''secret_key'')"
    and "truthy (dict_get d ''issuer_name'')"
    and "dict_get_default d ''type'' (JStr ''TOTP'') = JStr ty" and "upper ty \<in> {''TOTP'', ''HOTP''}"
    and "candidate_identifier (dict_get d ''issuer_name'') (dict_get d ''account_name'') = Inr c"
  shows "restorable d"
  using assms
  by (cases "dict_get d ''account_name''"; cases "dict_get d ''issuer_name''")
     (simp_all add: restorable_def candidate_identifier_def)

lemma holds_token_stored:
  assumes "get_error kr = None"
    and "map_of (passwords kr) n =
           Some (Dumped (JObj [(''account_name'', dict_get d ''account_name''),
                               (''issuer_name'', dict_get d ''issuer_name''),
                               (''secret_key'', dict_get d ''secret_key''),
                               (''type'', dict_get_default d ''type'' (JStr ''TOTP'')),
                               (''recovery_codes'', rc)]))"
  shows "holds_token kr n d"
  using get_token_secret_eq [OF assms]
  by (simp add: holds_token_def dict_get_def dict_get_default_def)

lemma restore_tokens_step:
  "restore_tokens kr (d # rest) rc fc =
     (if truthy (dict_get d ''account_name'') \<and> truthy (dict_get d ''issuer_name'')
           \<and> truthy (dict_get d ''secret_key'')
      then (case save_token_secret kr (dict_get d ''account_name'') (dict_get d ''issuer_name'')
                   (dict_get d ''secret_key'') (dict_get_default d ''type'' (JStr ''TOTP'')) None JNull of
              (kr', Inr identifier) \<Rightarrow> restore_tokens kr' rest (rc + 1) fc
            | (kr', Inl e) \<Rightarrow> restore_tokens kr' rest rc (fc + 1))
      else restore_tokens kr rest rc (fc + 1))"
  by (simp add: Let_def)

lemma restore_tokens_additive:
  assumes "vault_ok kr" and "get_all_token_identifiers kr = JArr old"
    and "\<forall>d\<in>set tokens. candidate_identifier (dict_get d ''issuer_name'') (dict_get d ''account_name'')
                            \<noteq> Inr ACCOUNTS_LIST_KEY"
    and "restore_tokens kr tokens rc fc = (kr', restored, failed)"
  shows "\<exists>new. get_all_token_identifiers kr' = JArr (old @ new) \<and> vault_ok kr'
           \<and> restored = rc + length new \<and> restored + failed = rc + fc + length tokens
           \<and> length new = length (filter restorable tokens)
           \<and> (\<forall>k. get_token_secret kr k \<noteq> None \<longrightarrow> get_token_secret kr' k = get_token_secret kr k)
           \<and> (\<forall>d\<in>set tokens. restorable d \<longrightarrow> (\<exists>n. JStr n \<in> set new \<and> holds_token kr' n d))"
  using assms
proof (induction tokens arbitrary: kr old rc fc)
  case Nil
  then show ?case by simp
next
  case (Cons d rest)
  let ?a = "dict_get d ''account_name''" and ?i = "dict_get d ''issuer_name''"
  let ?s = "dict_get d ''secret_key''" and ?t = "dict_get_default d ''type'' (JStr ''TOTP'')"
  from Cons.prems(3) have nr: "candidate_identifier ?i ?a \<noteq> Inr ACCOUNTS_LIST_KEY"
    and nrs: "\<forall>d\<in>set rest. candidate_identifier (dict_get d ''issuer_name'') (dict_get d ''account_name'')
                            \<noteq> Inr ACCOUNTS_LIST_KEY"
    by simp_all
  obtain kr1 res where sv: "save_token_secret kr ?a ?i ?s ?t None JNull = (kr1, res)"
    by (cases "save_token_secret kr ?a ?i ?s ?t None JNull")
  note step = save_new_in_ok_vault [OF Cons.prems(1,2) nr sv]
  consider (skip) "\<not> (truthy ?a \<and> truthy ?i \<and> truthy ?s)"
    | (fail) e where "truthy ?a \<and> truthy ?i \<and> truthy ?s" "res = Inl e" "kr1 = kr" "\<not> restorable d"
    | (ok) r where "truthy ?a \<and> truthy ?i \<and> truthy ?s" "res = Inr r" "JStr r \<notin> set old"
        "get_all_token_identifiers kr1 = JArr (old @ [JStr r])" "vault_ok kr1"
        "\<forall>k. get_token_secret kr k \<noteq> None \<longrightarrow> get_token_secret kr1 k = get_token_secret kr k"
        "map_of (passwords kr1) r =
           Some (Dumped (JObj [(''account_name'', ?a), (''issuer_name'', ?i), (''secret_key'', ?s),
                               (''type'', ?t), (''recovery_codes'', JNull)]))"
    using step restorable_valid [of d] by blast
  then show ?case
  proof cases
    case skip
    with Cons.prems(4) have run: "restore_tokens kr rest rc (fc + 1) = (kr', restored, failed)"
      by (simp only: restore_tokens_step if_False)
    from skip restorable_valid [of d] have nd: "\<not> restorable d" by blast
    from Cons.IH [OF Cons.prems(1,2) nrs run] obtain new where
      "get_all_token_identifiers kr' = JArr (old @ new)" "vault_ok kr'"
      "restored = rc + length new" "restored + failed = rc + (fc + 1) + length rest"
      "length new = length (filter restorable rest)"
      "\<forall>k. get_token_secret kr k \<noteq> None \<longrightarrow> get_token_secret kr' k = get_token_secret kr k"
      "\<forall>d\<in>set rest. restorable d \<longrightarrow> (\<exists>n. JStr n \<in> set new \<and> holds_token kr' n d)"
      by blast
    with nd show ?thesis by (intro exI [of _ new]) simp
  next
    case fail
    with Cons.prems(4) sv have run: "restore_tokens kr rest rc (fc + 1) = (kr', restored, failed)"
      by (simp add: restore_tokens_step del: restore_tokens.simps)
    from Cons.IH [OF Cons.prems(1,2) nrs run] obtain new where
      "get_all_token_identifiers kr' = JArr (old @ new)" "vault_ok kr'"
      "restored = rc + length new" "restored + failed = rc + (fc + 1) + length rest"
      "length new = length (filter restorable rest)"
      "\<forall>k. get_token_secret kr k \<noteq> None \<longrightarrow> get_token_secret kr' k = get_token_secret kr k"
      "\<forall>d\<in>set rest. restorable d \<longrightarrow> (\<exists>n. JStr n \<in> set new \<and> holds_token kr' n d)"
      by blast
    with fail(4) show ?thesis by (intro exI [of _ new]) simp
  next
    case ok
    with Cons.prems(4) sv have run: "restore_tokens kr1 rest (rc + 1) fc = (kr', restored, failed)"
      by (simp add: restore_tokens_step del: restore_tokens.simps)
    from Cons.IH [OF ok(5,4) nrs run] obtain new where new:
      "get_all_token_identifiers kr' = JArr ((old @ [JStr r]) @ new)" "vault_ok kr'"
      "restored = (rc + 1) + length new" "restored + failed = (rc + 1) + fc + length rest"
      "length new = length (filter restorable rest)"
      "\<forall>k. get_token_secret kr1 k \<noteq> None \<longrightarrow> get_token_secret kr' k = get_token_secret kr1 k"
      "\<forall>d\<in>set rest. restorable d \<longrightarrow> (\<exists>n. JStr n \<in> set new \<and> holds_token kr' n d)"
      by blast
    from sv ok(2) have "save_token_secret kr ?a ?i ?s ?t None JNull = (kr1, Inr r)" by simp
    from save_token_secret_Inr [OF this] obtain ty c where
      "dict_get_default d ''type'' (JStr ''TOTP'') = JStr ty" "upper ty \<in> {''TOTP'', ''HOTP''}"
      "candidate_identifier ?i ?a = Inr c"
      by (cases "candidate_identifier ?i ?a")
         (auto simp: choose_identifier_def new_identifier_def)
    with ok(1) have rd: "restorable d" by (intro valid_restorable [of d ty c]) simp_all
    have g1: "get_error kr1 = None" by (rule vault_okD(1) [OF ok(5)])
    have h1: "holds_token kr1 r d" by (rule holds_token_stored [OF g1 ok(7)])
    have "get_token_secret kr1 r \<noteq> None" by (rule get_token_secret_stored [OF g1 ok(7)])
    with new(6) have "get_token_secret kr' r = get_token_secret kr1 r" by blast
    with h1 have hr: "holds_token kr' r d" by (simp add: holds_token_def)
    have keep: "\<forall>k. get_token_secret kr k \<noteq> None \<longrightarrow> get_token_secret kr' k = get_token_secret kr k"
    proof (intro allI impI)
      fix k assume k: "get_token_secret kr k \<noteq> None"
      with ok(6) have e: "get_token_secret kr1 k = get_token_secret kr k" by blast
      with k new(6) have "get_token_secret kr' k = get_token_secret kr1 k" by simp
      with e show "get_token_secret kr' k = get_token_secret kr k" by simp
    qed
    have all: "\<forall>d'\<in>set (d # rest). restorable d' \<longrightarrow>
                 (\<exists>n. JStr n \<in> set (JStr r # new) \<and> holds_token kr' n d')"
    proof (intro ballI impI)
      fix d' assume "d' \<in> set (d # rest)" and rd: "restorable d'"
      then consider "d' = d" | "d' \<in> set rest" by auto
      then show "\<exists>n. JStr n \<in> set (JStr r # new) \<and> holds_token kr' n d'"
      proof cases
        case 1
        with hr show ?thesis by (intro exI [of _ r]) simp
      next
        case 2
        with new(7) rd obtain n where "JStr n \<in> set new" "holds_token kr' n d'" by blast
        then show ?thesis by (intro exI [of _ n]) simp
      qed
    qed
    from new(1-5) rd keep all show ?thesis by (intro exI [of _ "JStr r # new"]) simp
  qed
qed

lemma open_unsupported_backup:
  "open_backup term_codec (Dict unsupported_backup) (Some ''correct horse'')
     = Inr [[(''account_name'', JStr ''bob''), (''issuer_name'', JStr ''GitHub''),
             (''secret_key'', JStr ''GEZDGNBVGY3TQOJQ''), (''type'', JStr ''steam'')]]"
  by (simp add: open_backup_def unsupported_backup_def falsy_input_def term_codec_def)

lemma restore_unsupported_tokens:
  "restore_tokens example_vault
     [[(''account_name'', JStr ''bob''), (''issuer_name'', JStr ''GitHub''),
       (''secret_key'', JStr ''GEZDGNBVGY3TQOJQ''), (''type'', JStr ''steam'')]] 0 0
   = (example_vault, 0, 1)"
  by code_simp

text \<open>
  C9, as stated, fails: a backup that holds a token with the account and issuer of the
  one entry of the vault is restored, the token is rejected by \<^verbatim>\<open>save_token_secret\<close> for
  its type and counted as failed, and the vault still has its one entry.
\<close>

theorem rejected_token_adds_no_entry:
  "handle_restore_tokens term_codec example_vault (Some ''vault.json'') (Dict unsupported_backup)
     (Some ''correct horse'') True = (example_vault, RestoreSummary 0 1)
   \<and> get_all_token_identifiers example_vault = JArr [JStr ''github_bob'']"
proof -
  have "get_all_token_identifiers example_vault = JArr [JStr ''github_bob'']" by code_simp
  then show ?thesis
    by (simp add: handle_restore_tokens_def open_unsupported_backup falsy_input_def
                  restore_unsupported_tokens del: restore_tokens.simps)
qed

text \<open>
  C9, amended: in a vault whose index is a duplicate-free list of identifiers of
  retrievable records, on a keyring that can be read and written, a restore that reaches
  its summary, of a backup none of whose tokens derives the key of the index as its
  candidate identifier, is additive. The index afterwards is the old index followed by
  new identifiers, without duplicates; there are as many new identifiers as tokens
  reported restored, which are the tokens of the backup that \<^verbatim>\<open>save_token_secret\<close>
  accepts; restored and failed tokens add up to the tokens of the backup; every record
  retrievable before is retrievable unchanged; and every accepted token, also one with
  the account and issuer of an existing entry, has a new identifier, none of the old
  ones, whose record carries its account name, issuer, secret and type.
\<close>

theorem restore_is_additive:
  assumes "vault_ok kr" and "get_all_token_identifiers kr = JArr old"
    and "open_backup lib file backup_password = Inr tokens"
    and "\<forall>d\<in>set tokens. candidate_identifier (dict_get d ''issuer_name'') (dict_get d ''account_name'')
                            \<noteq> Inr ACCOUNTS_LIST_KEY"
    and "handle_restore_tokens lib kr restore_file_path file backup_password confirm_restore
           = (kr', RestoreSummary restored failed)"
  shows "\<exists>new. get_all_token_identifiers kr' = JArr (old @ new) \<and> distinct (old @ new)
           \<and> length new = restored \<and> restored = length (filter restorable tokens)
           \<and> restored + failed = length tokens
           \<and> (\<forall>k. get_token_secret kr k \<noteq> None \<longrightarrow> get_token_secret kr' k = get_token_secret kr k)
           \<and> (\<forall>d\<in>set tokens. restorable d \<longrightarrow>
                 (\<exists>n. JStr n \<in> set new \<and> JStr n \<notin> set old \<and> holds_token kr' n d))
           \<and> vault_ok kr'"
proof -
  from assms(3,5) have run: "restore_tokens kr tokens 0 0 = (kr', restored, failed)"
    by (auto simp: handle_restore_tokens_def split: if_splits prod.splits)
  from restore_tokens_additive [OF assms(1,2,4) run] obtain new where new:
    "get_all_token_identifiers kr' = JArr (old @ new)" "vault_ok kr'"
    "restored = 0 + length new" "restored + failed = 0 + 0 + length tokens"
    "length new = length (filter restorable tokens)"
    "\<forall>k. get_token_secret kr k \<noteq> None \<longrightarrow> get_token_secret kr' k = get_token_secret kr k"
    "\<forall>d\<in>set tokens. restorable d \<longrightarrow> (\<exists>n. JStr n \<in> set new \<and> holds_token kr' n d)"
    by blast
  from vault_okD(3) [OF new(2)] new(1) have d: "distinct (old @ new)" by auto
  have "\<forall>d\<in>set tokens. restorable d \<longrightarrow>
          (\<exists>n. JStr n \<in> set new \<and> JStr n \<notin> set old \<and> holds_token kr' n d)"
  proof (intro ballI impI)
    fix t assume "t \<in> set tokens" "restorable t"
    with new(7) obtain n where n: "JStr n \<in> set new" "holds_token kr' n t" by blast
    with d have "JStr n \<notin> set old" by auto
    with n show "\<exists>n. JStr n \<in> set new \<and> JStr n \<notin> set old \<and> holds_token kr' n t" by blast
  qed
  with new d show ?thesis by (intro exI [of _ new]) simp
qed

theorem restore_is_additive_witness:
  "\<exists>new. get_all_token_identifiers
            (fst (handle_restore_tokens term_codec example_vault (Some ''vault.json'')
                   (Dict example_backup) (Some ''correct horse'') True))
          = JArr ([JStr ''github_bob''] @ new)
        \<and> distinct ([JStr ''github_bob''] @ new)
        \<and> length new = 1
        \<and> (\<exists>n. JStr n \<in> set new \<and> JStr n \<notin> set [JStr ''github_bob'']
              \<and> holds_token
                   (fst (handle_restore_tokens term_codec example_vault (Some ''vault.json'')
                          (Dict example_backup) (Some ''correct horse'') True))
                   n
                   [(''identifier'', JStr ''github_bob''), (''account_name'', JStr ''bob''),
                    (''issuer_name'', JStr ''GitHub''), (''secret_key'', JStr ''JBSWY3DPEHPK3PXP''),
                    (''type'', JStr ''TOTP''), (''recovery_codes'', JStr ''r1 r2'')])
        \<and> get_token_secret
            (fst (handle_restore_tokens term_codec example_vault (Some ''vault.json'')
                   (Dict example_backup) (Some ''correct horse'') True)) ''github_bob''
          = get_token_secret example_vault ''github_bob''"
proof -
  let ?t = "[(''identifier'', JStr ''github_bob''), (''account_name'', JStr ''bob''),
            (''issuer_name'', JStr ''GitHub''), (''secret_key'', JStr ''JBSWY3DPEHPK3PXP''),
            (''type'', JStr ''TOTP''), (''recovery_codes'', JStr ''r1 r2'')]"
  let ?h = "handle_restore_tokens term_codec example_vault (Some ''vault.json'')
              (Dict example_backup) (Some ''correct horse'') True"
  have h1: "vault_ok example_vault" by code_simp
  have h2: "get_all_token_identifiers example_vault = JArr [JStr ''github_bob'']" by code_simp
  have h4: "\<forall>d\<in>set [?t]. candidate_identifier (dict_get d ''issuer_name'') (dict_get d ''account_name'')
                            \<noteq> Inr ACCOUNTS_LIST_KEY" by code_simp
  have c: "snd (restore_tokens example_vault [?t] 0 0) = (1, 0)" by code_simp
  obtain k r f where e: "restore_tokens example_vault [?t] 0 0 = (k, r, f)"
    by (rule prod_cases3)
  with c have "r = 1" "f = 0" by (simp_all del: restore_tokens.simps)
  with e have "?h = (k, RestoreSummary 1 0)"
    by (simp add: handle_restore_tokens_def open_example_backup falsy_input_def
             del: restore_tokens.simps)
  then have h5: "?h = (fst ?h, RestoreSummary 1 0)" by simp
  have rt: "restorable ?t" by code_simp
  have g: "get_token_secret example_vault ''github_bob'' \<noteq> None" by code_simp
  from restore_is_additive [OF h1 h2 open_example_backup h4 h5] obtain new where new:
    "get_all_token_identifiers (fst ?h) = JArr ([JStr ''github_bob''] @ new)"
    "distinct ([JStr ''github_bob''] @ new)" "length new = 1"
    "\<forall>k. get_token_secret example_vault k \<noteq> None \<longrightarrow>
           get_token_secret (fst ?h) k = get_token_secret example_vault k"
    "\<forall>d\<in>set [?t]. restorable d \<longrightarrow>
        (\<exists>n. JStr n \<in> set new \<and> JStr n \<notin> set [JStr ''github_bob''] \<and> holds_token (fst ?h) n d)"
    by (elim exE conjE)
  from new(5) rt have a: "\<exists>n. JStr n \<in> set new \<and> JStr n \<notin> set [JStr ''github_bob'']
                            \<and> holds_token (fst ?h) n ?t"
    by (simp del: restore_tokens.simps)
  from new(4) g have b: "get_token_secret (fst ?h) ''github_bob'' = get_token_secret example_vault ''github_bob''"
    by (elim allE impE)
  from new(1-3) a b show ?thesis by (intro exI [of _ new] conjI)
qed

end
